theory Spec2Isabelle
  imports Complex_Main
begin

section \<open>Python values used by burger.py\<close>

subsection \<open>Text\<close>

text \<open>
  A Python \<open>str\<close> is modelled as a \<open>string\<close> whose characters are the code points
  0 .. 255 (Latin-1).  On these code points \<open>str.lower\<close> adds 32 to the letters
  \<open>A .. Z\<close> and to 0xC0 .. 0xDE except 0xD7, and leaves every other character alone;
  \<open>str.strip\<close> removes the characters for which \<open>str.isspace\<close> holds.
\<close>

definition char_lower :: "char \<Rightarrow> char" where
  "char_lower c =
     (let n = (of_char c :: nat)
      in if (65 \<le> n \<and> n \<le> 90) \<or> (192 \<le> n \<and> n \<le> 222 \<and> n \<noteq> 215)
         then char_of (n + 32) else c)"

definition lower :: "string \<Rightarrow> string" where
  "lower s = map char_lower s"

definition isspace :: "char \<Rightarrow> bool" where
  "isspace c =
     (let n = (of_char c :: nat)
      in (9 \<le> n \<and> n \<le> 13) \<or> (28 \<le> n \<and> n \<le> 32) \<or> n = 133 \<or> n = 160)"

definition strip :: "string \<Rightarrow> string" where
  "strip s = rev (dropWhile isspace (rev (dropWhile isspace s)))"

text \<open>\<open>str(n)\<close> for a Python integer: its decimal digits, with a minus sign when negative.\<close>

definition digit_char :: "nat \<Rightarrow> char" where
  "digit_char d = ''0123456789'' ! d"

fun str_nat :: "nat \<Rightarrow> string" where
  "str_nat n = (if n < 10 then [digit_char n] else str_nat (n div 10) @ [digit_char (n mod 10)])"

declare str_nat.simps [simp del]

definition str_int :: "int \<Rightarrow> string" where
  "str_int i = (if i < 0 then CHR ''-'' # str_nat (nat (- i)) else str_nat (nat i))"

text \<open>
  What "decimal text" means, to compare \<open>str_int\<close> with: \<open>decimal_value s\<close> is the
  integer that \<open>s\<close> writes in decimal, for a text of digits without a superfluous
  leading zero, or a minus sign followed by such a text other than 0; any other text
  writes no integer.
\<close>

definition is_digit :: "char \<Rightarrow> bool" where
  "is_digit c = (48 \<le> (of_char c :: nat) \<and> (of_char c :: nat) \<le> 57)"

fun digits_value :: "nat \<Rightarrow> string \<Rightarrow> nat option" where
  "digits_value acc [] = Some acc"
| "digits_value acc (c # cs) =
     (if is_digit c then digits_value (10 * acc + (of_char c - 48)) cs else None)"

definition canonical :: "string \<Rightarrow> bool" where
  "canonical s =
     (case s of [] \<Rightarrow> False
      | c # cs \<Rightarrow> is_digit c \<and> (if c = CHR ''0'' then cs = [] else True))"

definition decimal_value :: "string \<Rightarrow> int option" where
  "decimal_value s =
     (case s of
        [] \<Rightarrow> None
      | c # cs \<Rightarrow>
          if c = CHR ''-''
          then (if canonical cs \<and> cs \<noteq> ''0''
                then map_option (\<lambda>v. - int v) (digits_value 0 cs) else None)
          else if canonical s then map_option int (digits_value 0 s) else None)"

text \<open>\<open>sep.join(parts)\<close> and \<open>s.split(sep)\<close> for a non-empty separator.\<close>

fun join :: "string \<Rightarrow> string list \<Rightarrow> string" where
  "join sep [] = []"
| "join sep [p] = p"
| "join sep (p # q # ps) = p @ sep @ join sep (q # ps)"

fun split_from :: "string \<Rightarrow> string \<Rightarrow> string \<Rightarrow> string list" where
  "split_from sep cur [] = [cur]"
| "split_from sep cur (c # cs) =
     (if sep \<noteq> [] \<and> take (length sep) (c # cs) = sep
      then cur # split_from sep [] (drop (length sep) (c # cs))
      else split_from sep (cur @ [c]) cs)"

definition split :: "string \<Rightarrow> string \<Rightarrow> string list" where
  "split s sep = split_from sep [] s"

subsection \<open>Floats\<close>

text \<open>
  A Python \<open>float\<close> is an IEEE 754 binary64 number.  A finite one is modelled by the
  rational number it denotes (the two zeros, which compare equal, are one value); every
  arithmetic operation computes the exact result and rounds it to the nearest
  representable number, ties to the even significand, overflowing to an infinity.
\<close>

datatype float = Finite rat | PInf | NInf | NaN

definition pow2 :: "int \<Rightarrow> rat" where
  "pow2 e = (if 0 \<le> e then 2 ^ nat e else 1 / 2 ^ nat (- e))"

fun bitlen :: "nat \<Rightarrow> nat" where
  "bitlen n = (if n = 0 then 0 else Suc (bitlen (n div 2)))"

declare bitlen.simps [simp del]

text \<open>\<open>ilog2 x\<close> is the integer \<open>e\<close> with \<open>2^e \<le> x < 2^(e+1)\<close>, for \<open>x > 0\<close>.\<close>

definition ilog2 :: "rat \<Rightarrow> int" where
  "ilog2 x =
     (if 1 \<le> x then int (bitlen (nat \<lfloor>x\<rfloor>)) - 1
      else let k = int (bitlen (nat \<lfloor>1 / x\<rfloor>))
           in if x * pow2 k = 2 then 1 - k else - k)"

definition round_half_even :: "rat \<Rightarrow> int" where
  "round_half_even q =
     (let n = \<lfloor>q\<rfloor>; r = q - of_int n
      in if r < 1 / 2 then n else if 1 / 2 < r then n + 1
         else if even n then n else n + 1)"

text \<open>
  Rounding to binary64: 53 significant bits, least exponent -1022 (below it the spacing
  stays \<open>2^-1074\<close>), and a rounded magnitude of \<open>2^1024\<close> or more is an infinity.
\<close>

definition round_to_float :: "rat \<Rightarrow> float" where
  "round_to_float x =
     (if x = 0 then Finite 0
      else let e = max (ilog2 \<bar>x\<bar>) (- 1022);
               u = pow2 (e - 52);
               y = of_int (round_half_even (x / u)) * u
           in if pow2 1024 \<le> \<bar>y\<bar> then (if 0 < x then PInf else NInf) else Finite y)"

fun fadd :: "float \<Rightarrow> float \<Rightarrow> float" where
  "fadd (Finite a) (Finite b) = round_to_float (a + b)"
| "fadd NaN y = NaN"
| "fadd x NaN = NaN"
| "fadd PInf NInf = NaN"
| "fadd NInf PInf = NaN"
| "fadd PInf y = PInf"
| "fadd x PInf = PInf"
| "fadd NInf y = NInf"
| "fadd x NInf = NInf"

definition inf_signed :: "bool \<Rightarrow> float" where
  "inf_signed positive = (if positive then PInf else NInf)"

fun fmul :: "float \<Rightarrow> float \<Rightarrow> float" where
  "fmul (Finite a) (Finite b) = round_to_float (a * b)"
| "fmul NaN y = NaN"
| "fmul x NaN = NaN"
| "fmul (Finite a) PInf = (if a = 0 then NaN else inf_signed (0 < a))"
| "fmul (Finite a) NInf = (if a = 0 then NaN else inf_signed (a < 0))"
| "fmul PInf (Finite b) = (if b = 0 then NaN else inf_signed (0 < b))"
| "fmul NInf (Finite b) = (if b = 0 then NaN else inf_signed (b < 0))"
| "fmul PInf PInf = PInf"
| "fmul NInf NInf = PInf"
| "fmul PInf NInf = NInf"
| "fmul NInf PInf = NInf"

text \<open>The comparison \<open>x >= 0.0\<close>.\<close>

fun fge0 :: "float \<Rightarrow> bool" where
  "fge0 (Finite a) = (0 \<le> a)"
| "fge0 PInf = True"
| "fge0 NInf = False"
| "fge0 NaN = False"

text \<open>
  \<open>round(x, 2)\<close>: the exact value of \<open>x\<close> rounded to two decimals, ties to even, and
  that decimal converted back to the nearest float; an infinity or a NaN is returned
  as it is.
\<close>

fun round2 :: "float \<Rightarrow> float" where
  "round2 (Finite a) = round_to_float (of_int (round_half_even (a * 100)) / 100)"
| "round2 x = x"

subsection \<open>Objects, exceptions and log records\<close>

text \<open>What an entry of an ingredient list can be at run time: text, or something else.\<close>

datatype pyobj = PyStr string | PyNone | PyInt int

datatype exn_class =
  BaseException | KeyboardInterrupt | SystemExit | Exception
  | ValueError | AttributeError | EOFError | RecursionError
  | OSError | PermissionError | FileExistsError | FileNotFoundError

datatype exn = Exn exn_class string

text \<open>\<open>isinstance(e, Exception)\<close> and \<open>isinstance(e, OSError)\<close> (\<open>IOError\<close> is \<open>OSError\<close>).\<close>

fun is_Exception :: "exn \<Rightarrow> bool" where
  "is_Exception (Exn c m) = (c \<noteq> BaseException \<and> c \<noteq> KeyboardInterrupt \<and> c \<noteq> SystemExit)"

fun is_OSError :: "exn \<Rightarrow> bool" where
  "is_OSError (Exn c m) =
     (c = OSError \<or> c = PermissionError \<or> c = FileExistsError \<or> c = FileNotFoundError)"

fun is_KeyboardInterrupt :: "exn \<Rightarrow> bool" where
  "is_KeyboardInterrupt (Exn c m) = (c = KeyboardInterrupt)"

fun exn_str :: "exn \<Rightarrow> string" where
  "exn_str (Exn c m) = m"

datatype level = INFO | WARNING | ERROR

type_synonym log_record = "level \<times> string"

section \<open>The price calculator\<close>

text \<open>A float literal such as \<open>0.3\<close> denotes the float nearest to its decimal value.\<close>

definition INGREDIENT_PRICES :: "(string \<times> float) list" where
  "INGREDIENT_PRICES =
     [(''bun'', round_to_float 2),
      (''beef'', round_to_float 5),
      (''chicken'', round_to_float 4),
      (''cheese'', round_to_float 1),
      (''tomato'', round_to_float (5 / 10)),
      (''lettuce'', round_to_float (5 / 10)),
      (''sauce'', round_to_float (3 / 10))]"

definition TAX_RATE :: float where
  "TAX_RATE = round_to_float (1 / 10)"

definition TAX_ITERATIONS :: int where
  "TAX_ITERATIONS = 2"

text \<open>\<open>INGREDIENT_PRICES.get(key, 0.0)\<close>.\<close>

definition price_get :: "string \<Rightarrow> float" where
  "price_get key = (case map_of INGREDIENT_PRICES key of None \<Rightarrow> Finite 0 | Some p \<Rightarrow> p)"

text \<open>
  The inner function \<open>calculate_tax\<close>, run with stack to spare; the integer 1 of
  \<open>1 + TAX_RATE\<close> is the float 1.0.
\<close>

function calculate_tax :: "float \<Rightarrow> int \<Rightarrow> float" where
  "calculate_tax price iterations =
     (if iterations \<le> 0 then price
      else calculate_tax (fmul price (fadd (Finite 1) TAX_RATE)) (iterations - 1))"
  by pat_completeness auto
termination
  by (relation "measure (\<lambda>(price, iterations). nat iterations)") auto

declare calculate_tax.simps [simp del]

text \<open>
  The same function run by the interpreter with \<open>frames\<close> stack frames left (1000
  less those in use, unless the limit was changed): every call takes a frame, and a call
  made when none is left raises RecursionError.  The call in
  \<open>calculate_burger_price\<close>, with two iterations, needs three frames.
\<close>

function calculate_tax_within :: "nat \<Rightarrow> float \<Rightarrow> int \<Rightarrow> exn + float" where
  "calculate_tax_within frames price iterations =
     (if frames = 0 then Inl (Exn RecursionError ''maximum recursion depth exceeded'')
      else if iterations \<le> 0 then Inr price
      else calculate_tax_within (frames - 1) (fmul price (fadd (Finite 1) TAX_RATE))
             (iterations - 1))"
  by pat_completeness auto
termination
  by (relation "measure (\<lambda>(frames, price, iterations). frames)") auto

declare calculate_tax_within.simps [simp del]

text \<open>
  The loop of \<open>sum_ingredients\<close>, from the running total and the warnings logged so far.
  An entry without a \<open>lower\<close> method raises AttributeError inside the \<open>try\<close>: it is
  logged and skipped.
\<close>

fun pyobj_str :: "pyobj \<Rightarrow> string" where
  "pyobj_str (PyStr s) = s"
| "pyobj_str PyNone = ''None''"
| "pyobj_str (PyInt i) = str_int i"

fun type_name :: "pyobj \<Rightarrow> string" where
  "type_name (PyStr s) = ''str''"
| "type_name PyNone = ''NoneType''"
| "type_name (PyInt i) = ''int''"

definition invalid_format :: "pyobj \<Rightarrow> log_record" where
  "invalid_format obj =
     (WARNING, ''Invalid ingredient format: '' @ pyobj_str obj @ '', error: ''
        @ [CHR 0x27] @ type_name obj @ [CHR 0x27] @ '' object has no attribute ''
        @ [CHR 0x27] @ ''lower'' @ [CHR 0x27])"

fun sum_ingredients_from :: "float \<Rightarrow> log_record list \<Rightarrow> pyobj list \<Rightarrow> float \<times> log_record list" where
  "sum_ingredients_from tot lg [] = (tot, lg)"
| "sum_ingredients_from tot lg (PyStr s # rest) =
     sum_ingredients_from (fadd tot (price_get (lower s))) lg rest"
| "sum_ingredients_from tot lg (obj # rest) =
     sum_ingredients_from tot (lg @ [invalid_format obj]) rest"

definition sum_ingredients :: "pyobj list \<Rightarrow> float \<times> log_record list" where
  "sum_ingredients ingredients = sum_ingredients_from (Finite 0) [] ingredients"

text \<open>
  \<open>calculate_burger_price\<close>: the argument is a list or \<open>None\<close>; the result is the
  exception raised or the price, together with the warnings logged.
\<close>

definition calculate_burger_price :: "pyobj list option \<Rightarrow> (exn + float) \<times> log_record list" where
  "calculate_burger_price ingredients_list =
     (case ingredients_list of
        None \<Rightarrow> (Inl (Exn ValueError ''Ingredients list cannot be empty''), [])
      | Some l \<Rightarrow>
          if l = [] then (Inl (Exn ValueError ''Ingredients list cannot be empty''), [])
          else let ingredients_copy = l;
                   (base_price, lg) = sum_ingredients ingredients_copy
               in (Inr (calculate_tax base_price TAX_ITERATIONS), lg))"

subsection \<open>Names beyond Latin-1\<close>

text \<open>
  Python text is Unicode, and \<open>str.lower\<close> is not the only case mapping: the letter
  U+017F, LATIN SMALL LETTER LONG S, is lower case already, so \<open>lower\<close> leaves it
  alone, while its upper case is the letter S.  To price names that contain it, text is
  widened by this one code point, and the price calculation for a list of names is
  written again over the wider text; on text without a long s it is the calculation
  above.
\<close>

datatype uchar = Byte char | LongS

fun uchar_lower :: "uchar \<Rightarrow> uchar" where
  "uchar_lower (Byte c) = Byte (char_lower c)"
| "uchar_lower LongS = LongS"

definition wide_lower :: "uchar list \<Rightarrow> uchar list" where
  "wide_lower s = map uchar_lower s"

definition wide :: "string \<Rightarrow> uchar list" where
  "wide s = map Byte s"

definition wide_price_get :: "uchar list \<Rightarrow> float" where
  "wide_price_get key =
     (case map_of (map (\<lambda>(k, p). (wide k, p)) INGREDIENT_PRICES) key of
        None \<Rightarrow> Finite 0 | Some p \<Rightarrow> p)"

fun wide_sum_ingredients_from :: "float \<Rightarrow> uchar list list \<Rightarrow> float" where
  "wide_sum_ingredients_from tot [] = tot"
| "wide_sum_ingredients_from tot (s # rest) =
     wide_sum_ingredients_from (fadd tot (wide_price_get (wide_lower s))) rest"

definition wide_calculate_burger_price :: "uchar list list option \<Rightarrow> exn + float" where
  "wide_calculate_burger_price ingredients_list =
     (case ingredients_list of
        None \<Rightarrow> Inl (Exn ValueError ''Ingredients list cannot be empty'')
      | Some l \<Rightarrow>
          if l = [] then Inl (Exn ValueError ''Ingredients list cannot be empty'')
          else Inr (calculate_tax (wide_sum_ingredients_from (Finite 0) l) TAX_ITERATIONS))"

section \<open>Process state and the outside world\<close>

text \<open>
  The module's globals \<open>BURGER_COUNT\<close> and \<open>last_burger\<close>, the records the logger has
  received, and what the program reads and writes: the lines still to come on standard
  input (a read may also raise), the prompts printed, the clock, and the directories of
  the file system with their files.  \<open>tmp_names\<close> are the random names the temporary
  directory generator will propose, \<open>io_faults\<close> says for each coming file system call
  whether the operating system refuses it.
\<close>

datatype input_event = Line string | Raises exn

record state =
  BURGER_COUNT :: int
  last_burger :: "string option"
  logged :: "log_record list"
  stdin :: "input_event list"
  stdout :: "string list"
  now :: string
  files :: "string \<rightharpoonup> (string \<rightharpoonup> string)"
  tmpdir :: string
  tmp_names :: "string list"
  io_faults :: "exn option list"

definition logger :: "level \<Rightarrow> string \<Rightarrow> state \<Rightarrow> state" where
  "logger lv msg s = s\<lparr>logged := logged s @ [(lv, msg)]\<rparr>"

text \<open>\<open>input(prompt)\<close>: prints the prompt, then reads a line; end of input raises EOFError.\<close>

definition input :: "string \<Rightarrow> state \<Rightarrow> (exn + string) \<times> state" where
  "input prompt s =
     (let s1 = s\<lparr>stdout := stdout s @ [prompt]\<rparr>
      in case stdin s1 of
           [] \<Rightarrow> (Inl (Exn EOFError ''EOF when reading a line''), s1)
         | Line l # rest \<Rightarrow> (Inr l, s1\<lparr>stdin := rest\<rparr>)
         | Raises e # rest \<Rightarrow> (Inl e, s1\<lparr>stdin := rest\<rparr>))"

definition get_order_timestamp :: "state \<Rightarrow> string" where
  "get_order_timestamp s = now s"

section \<open>The component collectors\<close>

definition get_bun :: "state \<Rightarrow> (exn + string) \<times> state" where
  "get_bun s =
     (case input ''What kind of bun would you like? '' s of
        (Inl e, s1) \<Rightarrow> (Inl e, s1)
      | (Inr line, s1) \<Rightarrow>
          (let bun_type = strip line
           in if bun_type = []
              then (Inr ''sesame'', logger WARNING ''Empty bun type provided, using default'' s1)
              else (Inr bun_type, s1)))"

definition get_bun_v2 :: "state \<Rightarrow> (exn + string) \<times> state" where
  "get_bun_v2 s = get_bun s"

definition valid_meats :: "string list" where
  "valid_meats = [''beef'', ''chicken'', ''turkey'', ''fish'', ''veggie'']"

definition get_meat :: "state \<Rightarrow> (exn + string) \<times> state" where
  "get_meat s =
     (case input ''Enter the meat type: '' s of
        (Inl e, s1) \<Rightarrow> (Inl e, s1)
      | (Inr line, s1) \<Rightarrow>
          (let meat_type = strip line
           in if meat_type = []
              then (Inr ''beef'', logger WARNING ''Empty meat type provided, using default'' s1)
              else if lower meat_type \<in> set valid_meats then (Inr (lower meat_type), s1)
              else (Inr meat_type,
                    logger INFO (''Unknown meat type: '' @ meat_type
                                   @ '', treating as specialty meat'') s1)))"

definition get_sauce :: string where
  "get_sauce =
     (let base_sauce = ''ketchup and mustard'';
          sauce_list = map strip (split base_sauce '' and '')
      in join '' and '' sauce_list)"

definition get_cheese :: "state \<Rightarrow> (exn + string) \<times> state" where
  "get_cheese s =
     (case input ''What kind of cheese? '' s of
        (Inl e, s1) \<Rightarrow> (Inl e, s1)
      | (Inr line, s1) \<Rightarrow>
          (let cheese_type = strip line
           in if cheese_type = []
              then (Inr ''cheddar'', logger WARNING ''Empty cheese type provided, using default'' s1)
              else (Inr cheese_type, s1)))"

section \<open>The order assembler\<close>

record components =
  bun :: string
  meat :: string
  sauce :: string
  cheese :: string

record burger_data = components +
  burger_id :: int
  price :: float
  timestamp :: string

text \<open>The dictionary \<open>components\<close>: its four values are computed in the order written.\<close>

definition gather_components :: "state \<Rightarrow> (exn + components) \<times> state" where
  "gather_components s =
     (case get_bun s of
        (Inl e, s1) \<Rightarrow> (Inl e, s1)
      | (Inr b, s1) \<Rightarrow>
          (case get_meat s1 of
             (Inl e, s2) \<Rightarrow> (Inl e, s2)
           | (Inr m, s2) \<Rightarrow>
               (case get_cheese s2 of
                  (Inl e, s3) \<Rightarrow> (Inl e, s3)
                | (Inr c, s3) \<Rightarrow>
                    (Inr \<lparr>bun = b, meat = m, sauce = get_sauce, cheese = c\<rparr>, s3))))"

definition price_ingredients :: "pyobj list" where
  "price_ingredients = [PyStr ''bun'', PyStr ''meat'', PyStr ''cheese'']"

text \<open>
  The body of the \<open>try\<close> of \<open>assemble_burger\<close> down to the dictionary \<open>burger_data\<close>:
  the result is the exception that leaves the body, or the dictionary.
\<close>

definition build_burger_data :: "state \<Rightarrow> (exn + burger_data) \<times> state" where
  "build_burger_data s =
     (let s0 = s\<lparr>BURGER_COUNT := BURGER_COUNT s + 1\<rparr>
      in case gather_components s0 of
           (Inl e, s1) \<Rightarrow> (Inl e, s1)
         | (Inr comps, s1) \<Rightarrow>
             (case calculate_burger_price (Some price_ingredients) of
                (Inl e, lg) \<Rightarrow> (Inl e, s1\<lparr>logged := logged s1 @ lg\<rparr>)
              | (Inr p, lg) \<Rightarrow>
                  (let s2 = s1\<lparr>logged := logged s1 @ lg\<rparr>
                   in (Inr \<lparr>bun = bun comps, meat = meat comps, sauce = sauce comps,
                            cheese = cheese comps, burger_id = BURGER_COUNT s2,
                            price = round2 p, timestamp = get_order_timestamp s2\<rparr>, s2))))"

definition describe :: "burger_data \<Rightarrow> string" where
  "describe d = bun d @ '' bun + '' @ meat d @ '' + '' @ sauce d @ '' + '' @ cheese d @ '' cheese''"

text \<open>
  \<open>assemble_burger\<close>: \<open>Inr (Some description)\<close> or \<open>Inr None\<close> is what it returns,
  \<open>Inl e\<close> an exception that \<open>except Exception\<close> does not catch.
\<close>

definition assemble_burger :: "state \<Rightarrow> (exn + string option) \<times> state" where
  "assemble_burger s =
     (case build_burger_data s of
        (Inr d, s1) \<Rightarrow>
          (let burger_description = describe d;
               s2 = s1\<lparr>last_burger := Some burger_description\<rparr>;
               s3 = logger INFO (''Burger #'' @ str_int (BURGER_COUNT s2)
                                   @ '' assembled successfully'') s2
           in (Inr (Some burger_description), s3))
      | (Inl e, s1) \<Rightarrow>
          if is_Exception e
          then (Inr None, logger ERROR (''Failed to assemble burger: '' @ exn_str e) s1)
          else (Inl e, s1))"

section \<open>The persister\<close>

definition take_fault :: "state \<Rightarrow> exn option \<times> state" where
  "take_fault s =
     (case io_faults s of [] \<Rightarrow> (None, s) | f # rest \<Rightarrow> (f, s\<lparr>io_faults := rest\<rparr>))"

text \<open>
  \<open>tempfile.mkdtemp(prefix=...)\<close> tries the proposed names in turn, skips those that
  exist, creates the first that does not, and raises FileExistsError when none is left.
\<close>

fun unused_name :: "(string \<rightharpoonup> 'a) \<Rightarrow> string \<Rightarrow> string list \<Rightarrow> (string \<times> string list) option" where
  "unused_name fs base [] = None"
| "unused_name fs base (n # ns) =
     (if fs (base @ n) = None then Some (base @ n, ns) else unused_name fs base ns)"

definition mkdtemp :: "string \<Rightarrow> state \<Rightarrow> (exn + string) \<times> state" where
  "mkdtemp prefix s =
     (case take_fault s of
        (Some e, s1) \<Rightarrow> (Inl e, s1)
      | (None, s1) \<Rightarrow>
          (case unused_name (files s1) (tmpdir s1 @ ''/'' @ prefix) (tmp_names s1) of
             None \<Rightarrow>
               (Inl (Exn FileExistsError
                       ''[Errno 17] No usable temporary directory name found''),
                s1\<lparr>tmp_names := []\<rparr>)
           | Some (path, rest) \<Rightarrow>
               (Inr path, s1\<lparr>tmp_names := rest, files := (files s1)(path \<mapsto> Map.empty)\<rparr>)))"

text \<open>\<open>(dir / name).write_text(data, encoding="utf-8")\<close>.\<close>

definition write_text :: "string \<Rightarrow> string \<Rightarrow> string \<Rightarrow> state \<Rightarrow> (exn + unit) \<times> state" where
  "write_text dir name data s =
     (case take_fault s of
        (Some e, s1) \<Rightarrow> (Inl e, s1)
      | (None, s1) \<Rightarrow>
          (case files s1 dir of
             None \<Rightarrow>
               (Inl (Exn FileNotFoundError
                       (''[Errno 2] No such file or directory: '' @ [CHR 0x27] @ dir @ ''/''
                          @ name @ [CHR 0x27])), s1)
           | Some d \<Rightarrow> (Inr (), s1\<lparr>files := (files s1)(dir \<mapsto> d(name \<mapsto> data))\<rparr>)))"

text \<open>The body of the \<open>try\<close> of \<open>save_burger\<close>; it returns the directory it made.\<close>

definition save_files :: "string \<Rightarrow> state \<Rightarrow> (exn + string) \<times> state" where
  "save_files burger s =
     (case mkdtemp ''burger_orders_'' s of
        (Inl e, s1) \<Rightarrow> (Inl e, s1)
      | (Inr temp_dir, s1) \<Rightarrow>
          (case write_text temp_dir ''burger.txt'' burger s1 of
             (Inl e, s2) \<Rightarrow> (Inl e, s2)
           | (Inr u, s2) \<Rightarrow>
               (case write_text temp_dir ''burger_count.txt'' (str_int (BURGER_COUNT s2)) s2 of
                  (Inl e, s3) \<Rightarrow> (Inl e, s3)
                | (Inr u', s3) \<Rightarrow> (Inr temp_dir, s3))))"

definition save_burger :: "string option \<Rightarrow> state \<Rightarrow> (exn + bool) \<times> state" where
  "save_burger burger s =
     (case burger of
        None \<Rightarrow> (Inr False, logger ERROR ''Cannot save empty burger description'' s)
      | Some b \<Rightarrow>
          if b = [] then (Inr False, logger ERROR ''Cannot save empty burger description'' s)
          else (case save_files b s of
                  (Inr temp_dir, s1) \<Rightarrow> (Inr True, logger INFO (''Burger saved to '' @ temp_dir) s1)
                | (Inl e, s1) \<Rightarrow>
                    if is_OSError e
                    then (Inr False, logger ERROR (''Failed to save burger: '' @ exn_str e) s1)
                    else (Inl e, s1)))"

section \<open>The orchestrator\<close>

text \<open>The body of the \<open>try\<close> of \<open>main\<close>.\<close>

definition create_burger :: "state \<Rightarrow> (exn + unit) \<times> state" where
  "create_burger s =
     (case assemble_burger s of
        (Inl e, s1) \<Rightarrow> (Inl e, s1)
      | (Inr None, s1) \<Rightarrow> (Inr (), logger ERROR ''Failed to create burger'' s1)
      | (Inr (Some burger), s1) \<Rightarrow>
          if burger = [] then (Inr (), logger ERROR ''Failed to create burger'' s1)
          else (case save_burger (Some burger) s1 of
                  (Inl e, s2) \<Rightarrow> (Inl e, s2)
                | (Inr success, s2) \<Rightarrow>
                    if success
                    then (Inr (), logger INFO ''Burger creation completed successfully'' s2)
                    else (Inr (), logger ERROR ''Failed to save burger'' s2)))"

definition main :: "state \<Rightarrow> (exn + unit) \<times> state" where
  "main s =
     (case create_burger (logger INFO ''Starting burger creation process'' s) of
        (Inr u, s1) \<Rightarrow> (Inr (), s1)
      | (Inl e, s1) \<Rightarrow>
          if is_KeyboardInterrupt e
          then (Inr (), logger INFO ''Burger creation cancelled by user'' s1)
          else if is_Exception e
          then (Inl e, logger ERROR (''Unexpected error during burger creation: '' @ exn_str e) s1)
          else (Inl e, s1))"

text \<open>A run of the process is a sequence of calls of its operations.\<close>

datatype operation = Assemble | Save "string option" | Price "pyobj list option" | Main

fun run_op :: "operation \<Rightarrow> state \<Rightarrow> state" where
  "run_op Assemble s = snd (assemble_burger s)"
| "run_op (Save burger) s = snd (save_burger burger s)"
| "run_op (Price l) s = s\<lparr>logged := logged s @ snd (calculate_burger_price l)\<rparr>"
| "run_op Main s = snd (main s)"

fun run_ops :: "operation list \<Rightarrow> state \<Rightarrow> state" where
  "run_ops [] s = s"
| "run_ops (x # xs) s = run_ops xs (run_op x s)"

text \<open>The state of a process that has just started.\<close>

definition fresh :: "state \<Rightarrow> state" where
  "fresh world = world\<lparr>BURGER_COUNT := 0, last_burger := None\<rparr>"

text \<open>The number of records of level ERROR in a log.\<close>

definition count_errors :: "log_record list \<Rightarrow> nat" where
  "count_errors lg = length (filter (\<lambda>r. fst r = ERROR) lg)"

text \<open>
  Concrete worlds: a process that has just started and whose user answers the three
  prompts, the same with another value of the counter, one whose standard input is
  already at its end, and one whose user presses Ctrl-C at the first prompt.
\<close>

definition answering :: state where
  "answering = \<lparr>BURGER_COUNT = 0, last_burger = None, logged = [],
     stdin = [Line ''sesame'', Line ''beef'', Line ''cheddar''], stdout = [],
     now = ''2024-01-01T12:00:00'', files = Map.empty, tmpdir = ''/tmp'',
     tmp_names = [''k3x9q2ab''], io_faults = []\<rparr>"

definition counted :: state where
  "counted = answering\<lparr>BURGER_COUNT := 1203\<rparr>"

definition at_eof :: state where
  "at_eof = answering\<lparr>stdin := []\<rparr>"

definition interrupted :: state where
  "interrupted = answering\<lparr>stdin := [Raises (Exn KeyboardInterrupt [])]\<rparr>"

text \<open>
  Two characters that differ at most in case: equal, or an upper-case letter and the
  letter 32 code points above it.  Two list entries are recasings of each other when
  both are text of the same length whose characters differ at most in case, or when they
  are the same object.
\<close>

definition is_upper :: "char \<Rightarrow> bool" where
  "is_upper c =
     (let n = (of_char c :: nat)
      in (65 \<le> n \<and> n \<le> 90) \<or> (192 \<le> n \<and> n \<le> 222 \<and> n \<noteq> 215))"

definition recased_char :: "char \<Rightarrow> char \<Rightarrow> bool" where
  "recased_char c d =
     (c = d \<or> (is_upper c \<and> (of_char d :: nat) = of_char c + 32)
            \<or> (is_upper d \<and> (of_char c :: nat) = of_char d + 32))"

fun recased :: "pyobj \<Rightarrow> pyobj \<Rightarrow> bool" where
  "recased (PyStr a) (PyStr b) = list_all2 recased_char a b"
| "recased x y = (x = y)"

text \<open>
  Two characters of the wider text that differ at most in case: as for Latin-1, and
  the long s with both forms of the letter s (\<open>upper\<close> maps it to S, \<open>casefold\<close> to s).
\<close>

fun wide_recased_char :: "uchar \<Rightarrow> uchar \<Rightarrow> bool" where
  "wide_recased_char (Byte c) (Byte d) = recased_char c d"
| "wide_recased_char LongS LongS = True"
| "wide_recased_char LongS (Byte d) = (d = CHR ''S'' \<or> d = CHR ''s'')"
| "wide_recased_char (Byte c) LongS = (c = CHR ''S'' \<or> c = CHR ''s'')"

text \<open>The name sauce written with a long s.\<close>

definition long_s_sauce :: "uchar list" where
  "long_s_sauce = LongS # wide ''auce''"

text \<open>The entries of an ingredient list that are text, in order.\<close>

fun text_entries :: "pyobj list \<Rightarrow> string list" where
  "text_entries [] = []"
| "text_entries (PyStr s # rest) = s # text_entries rest"
| "text_entries (obj # rest) = text_entries rest"

section \<open>What every step leaves alone\<close>

lemma count_errors_append: "count_errors (a @ b) = count_errors a + count_errors b"
  by (simp add: count_errors_def)

lemma logger_frame:
  "BURGER_COUNT (logger lv msg s) = BURGER_COUNT s"
  "last_burger (logger lv msg s) = last_burger s"
  "files (logger lv msg s) = files s"
  "logged (logger lv msg s) = logged s @ [(lv, msg)]"
  by (simp_all add: logger_def)

lemma input_frame:
  "input p s = (r, s') \<Longrightarrow>
     BURGER_COUNT s' = BURGER_COUNT s \<and> last_burger s' = last_burger s
     \<and> files s' = files s \<and> logged s' = logged s"
  by (auto simp: input_def Let_def split: list.splits input_event.splits)

lemma get_bun_frame:
  "get_bun s = (r, s') \<Longrightarrow>
     BURGER_COUNT s' = BURGER_COUNT s \<and> last_burger s' = last_burger s
     \<and> files s' = files s \<and> count_errors (logged s') = count_errors (logged s)"
  by (auto simp: get_bun_def Let_def logger_frame count_errors_append count_errors_def
      dest: input_frame split: prod.splits sum.splits if_splits)

lemma get_meat_frame:
  "get_meat s = (r, s') \<Longrightarrow>
     BURGER_COUNT s' = BURGER_COUNT s \<and> last_burger s' = last_burger s
     \<and> files s' = files s \<and> count_errors (logged s') = count_errors (logged s)"
  by (auto simp: get_meat_def Let_def logger_frame count_errors_append count_errors_def
      dest: input_frame split: prod.splits sum.splits if_splits)

lemma get_cheese_frame:
  "get_cheese s = (r, s') \<Longrightarrow>
     BURGER_COUNT s' = BURGER_COUNT s \<and> last_burger s' = last_burger s
     \<and> files s' = files s \<and> count_errors (logged s') = count_errors (logged s)"
  by (auto simp: get_cheese_def Let_def logger_frame count_errors_append count_errors_def
      dest: input_frame split: prod.splits sum.splits if_splits)

lemma gather_components_frame:
  "gather_components s = (r, s') \<Longrightarrow>
     BURGER_COUNT s' = BURGER_COUNT s \<and> last_burger s' = last_burger s
     \<and> files s' = files s \<and> count_errors (logged s') = count_errors (logged s)"
  by (auto simp: gather_components_def
      dest!: get_bun_frame get_meat_frame get_cheese_frame split: prod.splits sum.splits)

text \<open>The hardcoded list is not empty, so pricing it raises nothing and logs nothing.\<close>

lemma price_ingredients_ok:
  "\<exists>p. calculate_burger_price (Some price_ingredients) = (Inr p, [])"
  by (simp add: calculate_burger_price_def price_ingredients_def sum_ingredients_def
      split: prod.splits)

lemma build_burger_data_frame:
  "build_burger_data s = (r, s') \<Longrightarrow>
     BURGER_COUNT s' = BURGER_COUNT s + 1 \<and> last_burger s' = last_burger s
     \<and> files s' = files s \<and> count_errors (logged s') = count_errors (logged s)"
  using price_ingredients_ok
  by (auto simp: build_burger_data_def Let_def
      dest!: gather_components_frame split: prod.splits sum.splits)

lemma assemble_burger_count:
  "BURGER_COUNT (snd (assemble_burger s)) = BURGER_COUNT s + 1"
  by (auto simp: assemble_burger_def Let_def logger_frame
      dest!: build_burger_data_frame split: prod.splits sum.splits)

lemma take_fault_frame:
  "take_fault s = (r, s') \<Longrightarrow>
     BURGER_COUNT s' = BURGER_COUNT s \<and> last_burger s' = last_burger s
     \<and> files s' = files s \<and> logged s' = logged s
     \<and> tmpdir s' = tmpdir s \<and> tmp_names s' = tmp_names s"
  by (auto simp: take_fault_def split: list.splits)

lemma mkdtemp_frame:
  "mkdtemp p s = (r, s') \<Longrightarrow>
     BURGER_COUNT s' = BURGER_COUNT s \<and> last_burger s' = last_burger s \<and> logged s' = logged s"
  by (auto simp: mkdtemp_def dest!: take_fault_frame split: prod.splits option.splits)

lemma write_text_frame:
  "write_text d n x s = (r, s') \<Longrightarrow>
     BURGER_COUNT s' = BURGER_COUNT s \<and> last_burger s' = last_burger s \<and> logged s' = logged s"
  by (auto simp: write_text_def dest!: take_fault_frame split: prod.splits option.splits)

lemma save_files_frame:
  "save_files b s = (r, s') \<Longrightarrow>
     BURGER_COUNT s' = BURGER_COUNT s \<and> last_burger s' = last_burger s \<and> logged s' = logged s"
  by (auto simp: save_files_def dest!: mkdtemp_frame write_text_frame
      split: prod.splits sum.splits)

lemma save_burger_count:
  "BURGER_COUNT (snd (save_burger b s)) = BURGER_COUNT s"
  by (auto simp: save_burger_def logger_frame dest!: save_files_frame
      split: option.splits prod.splits sum.splits)

lemma create_burger_count:
  "BURGER_COUNT (snd (create_burger s)) = BURGER_COUNT s + 1"
proof -
  obtain r s1 where a: "assemble_burger s = (r, s1)" by (cases "assemble_burger s")
  have c: "BURGER_COUNT s1 = BURGER_COUNT s + 1"
    using assemble_burger_count [of s] a by simp
  show ?thesis
    using c save_burger_count [of "Some (the (projr r))" s1]
    by (auto simp: create_burger_def a logger_frame split: sum.splits option.splits prod.splits)
qed

lemma main_count:
  "BURGER_COUNT (snd (main s)) = BURGER_COUNT s + 1"
  using create_burger_count [of "logger INFO ''Starting burger creation process'' s"]
  by (auto simp: main_def logger_frame split: sum.splits prod.splits)

lemma run_op_count: "BURGER_COUNT s \<le> BURGER_COUNT (run_op x s)"
  by (cases x) (simp_all add: assemble_burger_count save_burger_count main_count)

lemma run_ops_count: "BURGER_COUNT s \<le> BURGER_COUNT (run_ops xs s)"
proof (induction xs arbitrary: s)
  case Nil
  show ?case by simp
next
  case (Cons x xs)
  have "BURGER_COUNT s \<le> BURGER_COUNT (run_op x s)" by (rule run_op_count)
  also have "\<dots> \<le> BURGER_COUNT (run_ops xs (run_op x s))" by (rule Cons.IH)
  finally show ?case by simp
qed

section \<open>Evaluating the collectors\<close>

lemma strip_plain:
  "strip ''sesame'' = ''sesame''" "strip ''beef'' = ''beef''" "strip ''cheddar'' = ''cheddar''"
  by (simp_all add: strip_def isspace_def)

lemma get_sauce_eq: "get_sauce = ''ketchup and mustard''"
  by (simp add: get_sauce_def split_def strip_def isspace_def)

lemma lower_beef: "lower ''beef'' = ''beef''"
  by (simp add: lower_def char_lower_def)

lemma str_int_0: "str_int 0 = ''0''"
  by (simp add: str_int_def str_nat.simps digit_char_def)

lemma assemble_at_eof:
  "fst (assemble_burger (at_eof\<lparr>last_burger := Some ''earlier''\<rparr>)) = Inr None"
  "last_burger (snd (assemble_burger (at_eof\<lparr>last_burger := Some ''earlier''\<rparr>))) =
     Some ''earlier''"
  by (simp_all add: assemble_burger_def build_burger_data_def gather_components_def get_bun_def
      input_def at_eof_def answering_def logger_def Let_def)

lemma assemble_at_eof_fails: "fst (assemble_burger at_eof) = Inr None"
  by (simp add: assemble_burger_def build_burger_data_def gather_components_def get_bun_def
      input_def at_eof_def answering_def logger_def Let_def)


lemma assemble_interrupted:
  "fst (build_burger_data interrupted) = Inl (Exn KeyboardInterrupt [])"
  "fst (assemble_burger interrupted) = Inl (Exn KeyboardInterrupt [])"
  "logged (snd (assemble_burger interrupted)) = []"
  by (simp_all add: assemble_burger_def build_burger_data_def gather_components_def get_bun_def
      input_def interrupted_def answering_def logger_def Let_def)

lemma collect_answering:
  "fst (get_bun (answering\<lparr>BURGER_COUNT := BURGER_COUNT answering + 1\<rparr>)) = Inr ''sesame''"
  "fst (get_meat (snd (get_bun (answering\<lparr>BURGER_COUNT := BURGER_COUNT answering + 1\<rparr>))))
     = Inr ''beef''"
  "fst (get_cheese (snd (get_meat (snd (get_bun
      (answering\<lparr>BURGER_COUNT := BURGER_COUNT answering + 1\<rparr>)))))) = Inr ''cheddar''"
  by (simp_all add: get_bun_def get_meat_def get_cheese_def input_def
      answering_def Let_def strip_plain lower_beef valid_meats_def)

lemma gather_answering:
  "fst (gather_components (answering\<lparr>BURGER_COUNT := 1\<rparr>)) =
     Inr \<lparr>bun = ''sesame'', meat = ''beef'', sauce = ''ketchup and mustard'',
          cheese = ''cheddar''\<rparr>"
  by (simp add: gather_components_def get_bun_def get_meat_def get_cheese_def input_def
      answering_def Let_def strip_plain get_sauce_eq lower_beef valid_meats_def)

lemma assemble_answering:
  "fst (assemble_burger answering) =
     Inr (Some ''sesame bun + beef + ketchup and mustard + cheddar cheese'')"
  "last_burger (snd (assemble_burger answering)) =
     Some ''sesame bun + beef + ketchup and mustard + cheddar cheese''"
proof -
  obtain p where p: "calculate_burger_price (Some price_ingredients) = (Inr p, [])"
    using price_ingredients_ok by blast
  obtain c s1 where
    g: "gather_components (answering\<lparr>BURGER_COUNT := BURGER_COUNT answering + 1\<rparr>) = (Inr c, s1)"
    and c: "c = \<lparr>bun = ''sesame'', meat = ''beef'', sauce = ''ketchup and mustard'',
                 cheese = ''cheddar''\<rparr>"
    using gather_answering
    by (cases "gather_components (answering\<lparr>BURGER_COUNT := 1\<rparr>)") (simp add: answering_def)
  show "fst (assemble_burger answering) =
     Inr (Some ''sesame bun + beef + ketchup and mustard + cheddar cheese'')"
    by (simp add: assemble_burger_def build_burger_data_def Let_def g p c describe_def)
  show "last_burger (snd (assemble_burger answering)) =
     Some ''sesame bun + beef + ketchup and mustard + cheddar cheese''"
    by (simp add: assemble_burger_def build_burger_data_def Let_def g p c describe_def logger_def)
qed

section \<open>The order counter\<close>

text \<open>
  Claim C4.  Whatever the state and whatever happens afterwards (a collector raising, an
  exception caught or one that propagates), \<open>assemble_burger\<close> leaves the counter one
  higher than it found it: the increment is the first statement of the \<open>try\<close> and
  nothing undoes it.  Two calls from a fresh process give 2, and no sequence of
  operations of the module ever lowers the counter.  Two runs in which the very first
  collection step fails show it: at the end of input the call returns \<open>None\<close>, on
  Ctrl-C the KeyboardInterrupt propagates, and both leave the counter incremented.
\<close>

theorem counter_incremented:
  "BURGER_COUNT (snd (assemble_burger s)) = BURGER_COUNT s + 1
   \<and> BURGER_COUNT (snd (assemble_burger (snd (assemble_burger (fresh w))))) = 2
   \<and> BURGER_COUNT s \<le> BURGER_COUNT (run_ops ops s)
   \<and> fst (assemble_burger at_eof) = Inr None
   \<and> BURGER_COUNT (snd (assemble_burger at_eof)) = BURGER_COUNT at_eof + 1
   \<and> fst (assemble_burger interrupted) = Inl (Exn KeyboardInterrupt [])
   \<and> BURGER_COUNT (snd (assemble_burger interrupted)) = BURGER_COUNT interrupted + 1"
  by (simp add: assemble_burger_count run_ops_count fresh_def assemble_at_eof_fails
      assemble_interrupted)

section \<open>The tax recursion\<close>

lemma calculate_tax_funpow:
  "calculate_tax p n = ((\<lambda>x. fmul x (fadd (Finite 1) TAX_RATE)) ^^ nat n) p"
proof (induction p n rule: calculate_tax.induct)
  case (1 p n)
  show ?case
  proof (cases "n \<le> 0")
    case True
    then show ?thesis by (simp add: calculate_tax.simps)
  next
    case False
    then have n: "nat n = Suc (nat (n - 1))" by simp
    have "calculate_tax p n = calculate_tax (fmul p (fadd (Finite 1) TAX_RATE)) (n - 1)"
      using False by (subst calculate_tax.simps) simp
    also have "\<dots> = ((\<lambda>x. fmul x (fadd (Finite 1) TAX_RATE)) ^^ nat (n - 1))
                       (fmul p (fadd (Finite 1) TAX_RATE))"
      using False by (simp add: "1.IH")
    finally show ?thesis
      by (simp only: n funpow_Suc_right o_def)
  qed
qed

section \<open>The validation error\<close>

text \<open>
  Claim C3, as the code has it.  \<open>calculate_burger_price\<close> raises the same ValueError
  for \<open>None\<close> and for the empty list, with the message
  \<open>Ingredients list cannot be empty\<close>, and raises for no other argument.
\<close>

theorem empty_list_error:
  "calculate_burger_price None = (Inl (Exn ValueError ''Ingredients list cannot be empty''), [])
   \<and> calculate_burger_price (Some []) =
       (Inl (Exn ValueError ''Ingredients list cannot be empty''), [])
   \<and> ((\<exists>e. fst (calculate_burger_price l) = Inl e) \<longleftrightarrow> (l = None \<or> l = Some []))"
  by (auto simp: calculate_burger_price_def Let_def split: option.splits prod.splits)

text \<open>
  The message is not the text \<open>ingredient list cannot be empty\<close>: the code's message
  begins with \<open>Ingredients\<close>.
\<close>

theorem empty_list_error_message_counterexample:
  "fst (calculate_burger_price (Some [])) \<noteq>
     Inl (Exn ValueError ''ingredient list cannot be empty'')
   \<and> fst (calculate_burger_price None) \<noteq>
     Inl (Exn ValueError ''ingredient list cannot be empty'')"
  by (simp add: calculate_burger_price_def)

section \<open>Failure of the assembly\<close>




section \<open>The last order cache\<close>

text \<open>
  Claim C10.  When \<open>assemble_burger\<close> returns \<open>None\<close>, \<open>last_burger\<close> is what it was;
  and whenever a call changes \<open>last_burger\<close>, the call has succeeded and the new value
  is the description it returns.
\<close>

theorem last_burger_kept:
  "(fst (assemble_burger s) = Inr None \<longrightarrow>
      last_burger (snd (assemble_burger s)) = last_burger s)
   \<and> (last_burger (snd (assemble_burger s)) \<noteq> last_burger s \<longrightarrow>
        (\<exists>d. fst (assemble_burger s) = Inr (Some d)
             \<and> last_burger (snd (assemble_burger s)) = Some d))"
  by (auto simp: assemble_burger_def Let_def logger_frame
      dest!: build_burger_data_frame split: prod.splits sum.splits)

theorem last_burger_kept_witness:
  "fst (assemble_burger (at_eof\<lparr>last_burger := Some ''earlier''\<rparr>)) = Inr None
   \<and> last_burger (snd (assemble_burger (at_eof\<lparr>last_burger := Some ''earlier''\<rparr>)))
       = Some ''earlier''
   \<and> last_burger (snd (assemble_burger answering)) \<noteq> last_burger answering
   \<and> fst (assemble_burger answering) =
       Inr (Some ''sesame bun + beef + ketchup and mustard + cheddar cheese'')"
  using last_burger_kept [of "at_eof\<lparr>last_burger := Some ''earlier''\<rparr>"]
    last_burger_kept [of answering] assemble_at_eof assemble_answering
  by (simp add: answering_def)

section \<open>The description\<close>

text \<open>
  Claim C6.  If the three prompts return \<open>b\<close>, \<open>m\<close> and \<open>c\<close>, \<open>assemble_burger\<close>
  returns \<open>b bun + m + sauce + c cheese\<close>, where the sauce is the fixed
  \<open>ketchup and mustard\<close>; with sesame, beef and cheddar and a counter of 0 this is
  \<open>sesame bun + beef + ketchup and mustard + cheddar cheese\<close> and the counter becomes 1.
  Conversely every description returned is built in this way from what the collectors
  returned.
\<close>

theorem assemble_burger_description:
  "(get_bun (s\<lparr>BURGER_COUNT := BURGER_COUNT s + 1\<rparr>) = (Inr b, s1)
      \<and> get_meat s1 = (Inr m, s2) \<and> get_cheese s2 = (Inr c, s3) \<longrightarrow>
        fst (assemble_burger s) =
          Inr (Some (b @ '' bun + '' @ m @ '' + '' @ get_sauce @ '' + '' @ c @ '' cheese''))
        \<and> (b = ''sesame'' \<and> m = ''beef'' \<and> c = ''cheddar'' \<and> BURGER_COUNT s = 0 \<longrightarrow>
             fst (assemble_burger s) =
               Inr (Some ''sesame bun + beef + ketchup and mustard + cheddar cheese'')
             \<and> BURGER_COUNT (snd (assemble_burger s)) = 1))
   \<and> (fst (assemble_burger s) = Inr (Some d) \<longrightarrow>
        (\<exists>b s1 m s2 c s3.
           get_bun (s\<lparr>BURGER_COUNT := BURGER_COUNT s + 1\<rparr>) = (Inr b, s1)
           \<and> get_meat s1 = (Inr m, s2) \<and> get_cheese s2 = (Inr c, s3)
           \<and> d = b @ '' bun + '' @ m @ '' + '' @ get_sauce @ '' + '' @ c @ '' cheese''))"
proof -
  obtain p where p: "calculate_burger_price (Some price_ingredients) = (Inr p, [])"
    using price_ingredients_ok by blast
  have fwd: "fst (assemble_burger s) =
          Inr (Some (b @ '' bun + '' @ m @ '' + '' @ get_sauce @ '' + '' @ c @ '' cheese''))"
    if "get_bun (s\<lparr>BURGER_COUNT := BURGER_COUNT s + 1\<rparr>) = (Inr b, s1)"
      "get_meat s1 = (Inr m, s2)" "get_cheese s2 = (Inr c, s3)" for b s1 m s2 c s3
    using that
    by (simp add: assemble_burger_def build_burger_data_def gather_components_def Let_def p
        describe_def)
  have bwd: "\<exists>b s1 m s2 c s3.
           get_bun (s\<lparr>BURGER_COUNT := BURGER_COUNT s + 1\<rparr>) = (Inr b, s1)
           \<and> get_meat s1 = (Inr m, s2) \<and> get_cheese s2 = (Inr c, s3)
           \<and> d = b @ '' bun + '' @ m @ '' + '' @ get_sauce @ '' + '' @ c @ '' cheese''"
    if "fst (assemble_burger s) = Inr (Some d)"
    using that
    by (auto simp: assemble_burger_def build_burger_data_def gather_components_def Let_def p
        describe_def split: prod.splits sum.splits if_splits)
  show ?thesis
    using fwd bwd assemble_burger_count [of s] by (auto simp: get_sauce_eq)
qed

theorem assemble_burger_description_witness:
  "fst (get_bun (answering\<lparr>BURGER_COUNT := BURGER_COUNT answering + 1\<rparr>)) = Inr ''sesame''
   \<and> fst (get_meat (snd (get_bun (answering\<lparr>BURGER_COUNT := BURGER_COUNT answering + 1\<rparr>))))
       = Inr ''beef''
   \<and> fst (get_cheese (snd (get_meat (snd (get_bun
       (answering\<lparr>BURGER_COUNT := BURGER_COUNT answering + 1\<rparr>)))))) = Inr ''cheddar''
   \<and> BURGER_COUNT answering = 0
   \<and> fst (assemble_burger answering) =
       Inr (Some ''sesame bun + beef + ketchup and mustard + cheddar cheese'')
   \<and> BURGER_COUNT (snd (assemble_burger answering)) = 1"
proof -
  let ?a = "answering\<lparr>BURGER_COUNT := BURGER_COUNT answering + 1\<rparr>"
  have b: "get_bun ?a = (Inr ''sesame'', snd (get_bun ?a))"
    using collect_answering(1) by (metis prod.collapse)
  have m: "get_meat (snd (get_bun ?a)) = (Inr ''beef'', snd (get_meat (snd (get_bun ?a))))"
    using collect_answering(2) by (metis prod.collapse)
  have c: "get_cheese (snd (get_meat (snd (get_bun ?a)))) =
      (Inr ''cheddar'', snd (get_cheese (snd (get_meat (snd (get_bun ?a))))))"
    using collect_answering(3) by (metis prod.collapse)
  have z: "BURGER_COUNT answering = 0" by (simp add: answering_def)
  have "fst (assemble_burger answering) =
          Inr (Some ''sesame bun + beef + ketchup and mustard + cheddar cheese'')
        \<and> BURGER_COUNT (snd (assemble_burger answering)) = 1"
    using assemble_burger_description [of answering "''sesame''" "snd (get_bun ?a)" "''beef''"
        "snd (get_meat (snd (get_bun ?a)))" "''cheddar''"
        "snd (get_cheese (snd (get_meat (snd (get_bun ?a)))))"] b m c z
    by blast
  then show ?thesis
    using collect_answering z by blast
qed

section \<open>Saving\<close>

lemma unused_name_fresh:
  "unused_name fs base ns = Some (p, rest) \<Longrightarrow> fs p = None"
  by (induction ns) (auto split: if_splits)

lemma save_files_result:
  assumes "save_files d s = (Inr t, s')"
  shows "files s t = None
         \<and> files s' = (files s)(t \<mapsto> [''burger.txt'' \<mapsto> d,
                                      ''burger_count.txt'' \<mapsto> str_int (BURGER_COUNT s)])"
proof -
  obtain s1 where m: "mkdtemp ''burger_orders_'' s = (Inr t, s1)"
    and r: "(case write_text t ''burger.txt'' d s1 of
             (Inl e, s2) \<Rightarrow> (Inl e, s2)
           | (Inr u, s2) \<Rightarrow>
               (case write_text t ''burger_count.txt'' (str_int (BURGER_COUNT s2)) s2 of
                  (Inl e, s3) \<Rightarrow> (Inl e, s3)
                | (Inr u', s3) \<Rightarrow> (Inr t, s3))) = (Inr t, s')"
    using assms by (auto simp: save_files_def split: prod.splits sum.splits)
  obtain s2 where w1: "write_text t ''burger.txt'' d s1 = (Inr (), s2)"
    and w2: "write_text t ''burger_count.txt'' (str_int (BURGER_COUNT s2)) s2 = (Inr (), s')"
    using r by (auto split: prod.splits sum.splits)
  have f1: "files s t = None \<and> files s1 = (files s)(t \<mapsto> Map.empty)"
    using m by (auto simp: mkdtemp_def dest!: take_fault_frame unused_name_fresh
        split: prod.splits option.splits)
  have c1: "BURGER_COUNT s1 = BURGER_COUNT s" using mkdtemp_frame [OF m] by simp
  have f2: "files s2 = (files s)(t \<mapsto> [''burger.txt'' \<mapsto> d])"
    using w1 f1 by (auto simp: write_text_def dest!: take_fault_frame
        split: prod.splits option.splits)
  have c2: "BURGER_COUNT s2 = BURGER_COUNT s" using write_text_frame [OF w1] c1 by simp
  have f3: "files s' = (files s)(t \<mapsto> [''burger.txt'' \<mapsto> d,
                                      ''burger_count.txt'' \<mapsto> str_int (BURGER_COUNT s)])"
    using w2 f2 c2 by (auto simp: write_text_def dest!: take_fault_frame
        split: prod.splits option.splits)
  show ?thesis using f1 f3 by simp
qed

lemma save_answering:
  "fst (save_burger (Some ''sesame bun'') answering) = Inr True"
  "files (snd (save_burger (Some ''sesame bun'') answering)) =
     [''/tmp/burger_orders_k3x9q2ab'' \<mapsto>
        [''burger.txt'' \<mapsto> ''sesame bun'', ''burger_count.txt'' \<mapsto> ''0'']]"
  by (simp_all add: save_burger_def save_files_def mkdtemp_def write_text_def take_fault_def
      answering_def logger_def str_int_0)

text \<open>\<open>str_int\<close> writes its argument in decimal, and nothing else does.\<close>

lemma digit_char_code: "d < 10 \<Longrightarrow> (of_char (digit_char d) :: nat) = 48 + d"
proof -
  assume "d < 10"
  then have "d = 0 \<or> d = 1 \<or> d = 2 \<or> d = 3 \<or> d = 4 \<or> d = 5 \<or> d = 6 \<or> d = 7 \<or> d = 8 \<or> d = 9"
    by arith
  then show ?thesis by (auto simp: digit_char_def)
qed

lemma digit_char_digit: "d < 10 \<Longrightarrow> is_digit (digit_char d)"
  by (simp add: is_digit_def digit_char_code)

lemma digit_char_zero: "d < 10 \<Longrightarrow> (digit_char d = CHR ''0'') = (d = 0)"
proof -
  assume d: "d < 10"
  have "(digit_char d = CHR ''0'') = ((of_char (digit_char d) :: nat) = of_char CHR ''0'')"
    by (simp only: of_char_eq_iff)
  then show ?thesis using digit_char_code [OF d] by simp
qed

lemma digits_value_append:
  "digits_value a (xs @ ys) =
     (case digits_value a xs of None \<Rightarrow> None | Some v \<Rightarrow> digits_value v ys)"
  by (induction xs arbitrary: a) simp_all

lemma digits_value_str_nat: "digits_value 0 (str_nat n) = Some n"
proof (induction n rule: str_nat.induct)
  case (1 n)
  show ?case
  proof (cases "n < 10")
    case True
    then show ?thesis
      by (subst str_nat.simps) (simp add: digit_char_digit digit_char_code)
  next
    case False
    have m: "n mod 10 < 10" by simp
    have "digits_value 0 (str_nat n) =
        digits_value 0 (str_nat (n div 10) @ [digit_char (n mod 10)])"
      using False by (subst str_nat.simps) simp
    also have "\<dots> = Some (10 * (n div 10) + n mod 10)"
      using False "1.IH" m
      by (simp add: digits_value_append digit_char_digit digit_char_code)
    finally show ?thesis by simp
  qed
qed

lemma canonical_str_nat: "canonical (str_nat n) \<and> ((str_nat n = ''0'') = (n = 0))"
proof (induction n rule: str_nat.induct)
  case (1 n)
  show ?case
  proof (cases "n < 10")
    case True
    then have s: "str_nat n = [digit_char n]" by (subst str_nat.simps) simp
    show ?thesis using True by (simp add: s canonical_def digit_char_digit digit_char_zero)
  next
    case False
    then have s: "str_nat n = str_nat (n div 10) @ [digit_char (n mod 10)]"
      by (subst str_nat.simps) simp
    from "1.IH" False have ih: "canonical (str_nat (n div 10))" "str_nat (n div 10) \<noteq> ''0''"
      by simp_all
    from ih obtain c cs where p: "str_nat (n div 10) = c # cs" "is_digit c" "c \<noteq> CHR ''0''"
      by (cases "str_nat (n div 10)") (auto simp: canonical_def split: if_splits)
    show ?thesis using False by (simp add: s p canonical_def)
  qed
qed

lemma str_nat_no_minus: "str_nat n = c # cs \<Longrightarrow> c \<noteq> CHR ''-''"
  using canonical_str_nat [of n] by (auto simp: canonical_def is_digit_def)

lemma decimal_value_str_int: "decimal_value (str_int i) = Some i"
proof (cases "i < 0")
  case True
  then have "nat (- i) \<noteq> 0" by simp
  then have "str_nat (nat (- i)) \<noteq> ''0''" using canonical_str_nat [of "nat (- i)"] by simp
  then show ?thesis
    using True canonical_str_nat [of "nat (- i)"]
    by (simp add: decimal_value_def str_int_def digits_value_str_nat)
next
  case False
  obtain c cs where s: "str_nat (nat i) = c # cs"
    using canonical_str_nat [of "nat i"] by (cases "str_nat (nat i)") (simp_all add: canonical_def)
  have m: "c \<noteq> CHR ''-''" using str_nat_no_minus [OF s] .
  have d: "digits_value 0 (c # cs) = Some (nat i)"
    using digits_value_str_nat [of "nat i"] by (simp only: s)
  have k: "canonical (c # cs)" using canonical_str_nat [of "nat i"] by (simp only: s)
  show ?thesis
    using False m d k by (simp add: decimal_value_def str_int_def s del: digits_value.simps)
qed

lemma str_int_1203: "str_int 1203 = ''1203''"
  by (simp add: str_int_def str_nat.simps digit_char_def)

lemma digit_char_of_digit: "is_digit c \<Longrightarrow> digit_char (of_char c - 48) = c"
proof -
  assume "is_digit c"
  then have d: "of_char c - 48 < (10::nat)" "48 \<le> (of_char c :: nat)"
    unfolding is_digit_def by arith+
  have "(of_char (digit_char (of_char c - 48)) :: nat) = of_char c"
    using digit_char_code [OF d(1)] d(2) by simp
  then show ?thesis by (simp only: of_char_eq_iff)
qed

lemma digits_value_snoc:
  "digits_value a (t @ [c]) = Some n \<Longrightarrow>
     \<exists>m. digits_value a t = Some m \<and> is_digit c \<and> n = 10 * m + (of_char c - 48)"
  by (auto simp: digits_value_append split: option.splits if_splits)

lemma canonical_unique:
  "canonical s \<Longrightarrow> digits_value 0 s = Some n \<Longrightarrow> s = str_nat n"
proof (induction s arbitrary: n rule: rev_induct)
  case Nil
  then show ?case by (simp add: canonical_def)
next
  case (snoc c t)
  from digits_value_snoc [OF snoc.prems(2)]
  obtain m where m: "digits_value 0 t = Some m" "is_digit c" "n = 10 * m + (of_char c - 48)"
    by blast
  have d: "of_char c - 48 < (10::nat)" using m(2) unfolding is_digit_def by arith
  show ?case
  proof (cases t)
    case Nil
    then have "m = 0" using m(1) by simp
    then have n: "n = of_char c - 48" using m(3) by simp
    have "str_nat n = [digit_char n]" using d n by (subst str_nat.simps) simp
    then show ?thesis using Nil n digit_char_of_digit [OF m(2)] by simp
  next
    case (Cons c0 cs0)
    then have c0: "is_digit c0" "c0 \<noteq> CHR ''0''"
      using snoc.prems(1) by (auto simp: canonical_def split: if_splits)
    then have ct: "canonical t" by (simp add: Cons canonical_def)
    have t: "t = str_nat m" by (rule snoc.IH [OF ct m(1)])
    have "t \<noteq> ''0''" using Cons c0(2) by simp
    then have m0: "m \<noteq> 0" using canonical_str_nat [of m] t by simp
    then have big: "\<not> n < 10" using m(3) by simp
    have dv: "n div 10 = m" "n mod 10 = of_char c - 48" using m(3) d by simp_all
    have "str_nat n = str_nat (n div 10) @ [digit_char (n mod 10)]"
      using big by (subst str_nat.simps) simp
    then show ?thesis using dv t digit_char_of_digit [OF m(2)] by simp
  qed
qed

lemma decimal_value_unique: "decimal_value s = Some i \<Longrightarrow> s = str_int i"
proof (cases s)
  case Nil
  assume "decimal_value s = Some i"
  then show ?thesis using Nil by (simp add: decimal_value_def)
next
  case (Cons c cs)
  assume a: "decimal_value s = Some i"
  show ?thesis
  proof (cases "c = CHR ''-''")
    case True
    from a Cons True obtain v where v: "canonical cs" "cs \<noteq> ''0''" "digits_value 0 cs = Some v" "i = - int v"
      by (auto simp: decimal_value_def split: if_splits)
    have cs: "cs = str_nat v" by (rule canonical_unique [OF v(1,3)])
    then have "v \<noteq> 0" using v(2) canonical_str_nat [of v] by simp
    then show ?thesis using Cons True cs v(4) by (simp add: str_int_def)
  next
    case False
    from a Cons False obtain v where v: "canonical s" "digits_value 0 s = Some v" "i = int v"
      by (auto simp: decimal_value_def split: if_splits)
    have "s = str_nat v" by (rule canonical_unique [OF v(1,2)])
    then show ?thesis using v(3) by (simp add: str_int_def)
  qed
qed

lemma decimal_value_iff: "(decimal_value s = Some i) = (s = str_int i)"
  using decimal_value_unique [of s i] decimal_value_str_int [of i] by auto

lemma save_counted:
  "fst (save_burger (Some ''sesame bun'') counted) = Inr True"
  "files (snd (save_burger (Some ''sesame bun'') counted)) =
     [''/tmp/burger_orders_k3x9q2ab'' \<mapsto>
        [''burger.txt'' \<mapsto> ''sesame bun'', ''burger_count.txt'' \<mapsto> ''1203'']]"
  by (simp_all add: save_burger_def save_files_def mkdtemp_def write_text_def take_fault_def
      counted_def answering_def logger_def str_int_1203)

text \<open>
  Claim C7.  For the empty description, and for \<open>None\<close>, \<open>save_burger\<close> returns
  \<open>False\<close> and changes nothing but the log (one error record), so no directory is made
  and no file written.  A call that returns \<open>True\<close> for a non-empty description has
  added to the file system exactly one directory, which did not exist before, holding
  exactly the two files \<open>burger.txt\<close>, with the description, and
  \<open>burger_count.txt\<close>, with a text that writes the counter in decimal; and the only
  text that writes an integer in decimal is the one \<open>str\<close> gives.
\<close>

theorem save_burger_files:
  "save_burger (Some []) s = (Inr False, logger ERROR ''Cannot save empty burger description'' s)
   \<and> save_burger None s = (Inr False, logger ERROR ''Cannot save empty burger description'' s)
   \<and> files (logger ERROR ''Cannot save empty burger description'' s) = files s
   \<and> (d \<noteq> [] \<and> save_burger (Some d) s = (Inr True, s') \<longrightarrow>
        (\<exists>t c. files s t = None
           \<and> files s' = (files s)(t \<mapsto> [''burger.txt'' \<mapsto> d, ''burger_count.txt'' \<mapsto> c])
           \<and> decimal_value c = Some (BURGER_COUNT s)))
   \<and> (decimal_value x = Some i) = (x = str_int i)"
proof -
  have a: "save_burger (Some []) s =
      (Inr False, logger ERROR ''Cannot save empty burger description'' s)"
    "save_burger None s = (Inr False, logger ERROR ''Cannot save empty burger description'' s)"
    by (simp_all add: save_burger_def)
  have b: "\<exists>t c. files s t = None
           \<and> files s' = (files s)(t \<mapsto> [''burger.txt'' \<mapsto> d, ''burger_count.txt'' \<mapsto> c])
           \<and> decimal_value c = Some (BURGER_COUNT s)"
    if "d \<noteq> []" "save_burger (Some d) s = (Inr True, s')"
  proof -
    obtain r s1 where sf: "save_files d s = (r, s1)" by (cases "save_files d s")
    show ?thesis
    proof (cases r)
      case (Inl e)
      then show ?thesis
        using that by (simp add: save_burger_def sf split: if_splits)
    next
      case (Inr t)
      then have "s' = logger INFO (''Burger saved to '' @ t) s1"
        using that by (simp add: save_burger_def sf)
      then have "files s t = None
         \<and> files s' = (files s)(t \<mapsto> [''burger.txt'' \<mapsto> d,
                                      ''burger_count.txt'' \<mapsto> str_int (BURGER_COUNT s)])"
        using save_files_result [of d s t s1] sf Inr by (simp add: logger_frame)
      then show ?thesis using decimal_value_str_int [of "BURGER_COUNT s"] by blast
    qed
  qed
  have c: "(decimal_value x = Some i) = (x = str_int i)" by (rule decimal_value_iff)
  show ?thesis using a b c by (simp add: logger_frame)
qed

theorem save_burger_files_witness:
  "''sesame bun'' \<noteq> [] \<and> fst (save_burger (Some ''sesame bun'') counted) = Inr True
   \<and> BURGER_COUNT counted = 1203
   \<and> files counted ''/tmp/burger_orders_k3x9q2ab'' = None
   \<and> files (snd (save_burger (Some ''sesame bun'') counted)) =
       (files counted)(''/tmp/burger_orders_k3x9q2ab'' \<mapsto>
          [''burger.txt'' \<mapsto> ''sesame bun'', ''burger_count.txt'' \<mapsto> ''1203''])
   \<and> decimal_value ''1203'' = Some 1203 \<and> str_int 1203 = ''1203''
   \<and> (\<exists>t c. files counted t = None
         \<and> files (snd (save_burger (Some ''sesame bun'') counted)) =
             (files counted)(t \<mapsto> [''burger.txt'' \<mapsto> ''sesame bun'',
                                     ''burger_count.txt'' \<mapsto> c])
         \<and> decimal_value c = Some (BURGER_COUNT counted))"
proof -
  have e: "save_burger (Some ''sesame bun'') counted =
      (Inr True, snd (save_burger (Some ''sesame bun'') counted))"
    using save_counted(1) by (metis prod.collapse)
  have n: "''sesame bun'' \<noteq> []" by simp
  have x: "\<exists>t c. files counted t = None
         \<and> files (snd (save_burger (Some ''sesame bun'') counted)) =
             (files counted)(t \<mapsto> [''burger.txt'' \<mapsto> ''sesame bun'',
                                     ''burger_count.txt'' \<mapsto> c])
         \<and> decimal_value c = Some (BURGER_COUNT counted)"
    using save_burger_files [of counted "''sesame bun''"
        "snd (save_burger (Some ''sesame bun'') counted)"] e n
    by blast
  have d: "decimal_value ''1203'' = Some 1203"
    using save_burger_files [of counted "''sesame bun''" counted "''1203''" 1203]
    by (simp add: str_int_1203)
  have f: "files counted = Map.empty" "BURGER_COUNT counted = 1203"
    by (simp_all add: counted_def answering_def)
  show ?thesis
    using x d n save_counted f by (simp add: str_int_1203)
qed

section \<open>Letter case\<close>

lemma char_lower_upper:
  assumes "is_upper c" "(of_char d :: nat) = of_char c + 32"
  shows "char_lower c = d" "char_lower d = d"
proof -
  have "char_of (of_char c + 32 :: nat) = d"
    using assms(2) by (metis char_of_char)
  then show "char_lower c = d"
    using assms(1) by (simp add: char_lower_def is_upper_def Let_def)
  show "char_lower d = d"
    using assms by (auto simp: char_lower_def is_upper_def Let_def)
qed

lemma recased_char_lower: "recased_char c d \<Longrightarrow> char_lower c = char_lower d"
  unfolding recased_char_def using char_lower_upper by metis

lemma recased_lower: "list_all2 recased_char a b \<Longrightarrow> lower a = lower b"
  unfolding lower_def
  by (induction a b rule: list_all2_induct) (simp_all add: recased_char_lower)

lemma sum_ingredients_from_recased:
  "list_all2 recased xs ys \<Longrightarrow> sum_ingredients_from t lg xs = sum_ingredients_from t lg ys"
proof (induction xs ys arbitrary: t lg rule: list_all2_induct)
  case Nil
  show ?case by simp
next
  case (Cons x xs y ys)
  show ?case
  proof (cases x)
    case (PyStr a)
    then obtain b where b: "y = PyStr b" "list_all2 recased_char a b"
      using Cons.hyps(1) by (cases y) simp_all
    show ?thesis
      by (simp add: PyStr b(1) recased_lower [OF b(2)] Cons.IH)
  next
    case PyNone
    then have "y = PyNone" using Cons.hyps(1) by simp
    then show ?thesis by (simp add: PyNone Cons.IH)
  next
    case (PyInt i)
    then have "y = PyInt i" using Cons.hyps(1) by simp
    then show ?thesis by (simp add: PyInt Cons.IH)
  qed
qed

lemma recased_upper_example:
  "list_all2 recased [PyStr ''BUN'', PyStr ''BEEF'', PyStr ''CHEESE'']
     [PyStr ''bun'', PyStr ''beef'', PyStr ''cheese'']"
  by (simp add: recased_char_def is_upper_def)

section \<open>Rounding\<close>

text \<open>
  Powers of two, the exponent found by \<open>ilog2\<close>, and rounding to the nearest integer:
  the facts that let a rounding be checked from its exponent and its significand.
\<close>

lemma pow2_powi: "pow2 e = 2 powi e"
  by (simp add: pow2_def power_int_def power_one_over inverse_eq_divide)

lemma pow2_pos: "0 < pow2 e"
  by (simp add: pow2_powi)

lemma pow2_add: "pow2 (a + b) = pow2 a * pow2 b"
  by (simp add: pow2_powi power_int_add)

lemma pow2_mono: "a \<le> b \<Longrightarrow> pow2 a \<le> pow2 b"
  by (simp add: pow2_powi power_int_increasing)

lemma pow2_strict_mono: "a < b \<Longrightarrow> pow2 a < pow2 b"
  by (simp add: pow2_powi power_int_strict_increasing)

lemma pow2_nat: "pow2 (int k) = 2 ^ k"
  by (simp add: pow2_def)

lemma pow2_neg: "pow2 (- e) = 1 / pow2 e"
  by (simp add: pow2_powi power_int_minus inverse_eq_divide)

lemma bitlen_bounds: "0 < n \<Longrightarrow> 2 ^ (bitlen n - 1) \<le> n \<and> n < 2 ^ bitlen n"
proof (induction n rule: bitlen.induct)
  case (1 n)
  show ?case
  proof (cases "n div 2 = 0")
    case True
    with "1.prems" have "n = 1" by (simp add: div_eq_0_iff) 
    then show ?thesis by (simp add: bitlen.simps)
  next
    case False
    then have h: "0 < n div 2" by simp
    from "1.IH" [OF _ h] "1.prems"
    have ih: "2 ^ (bitlen (n div 2) - 1) \<le> n div 2" "n div 2 < 2 ^ bitlen (n div 2)" by simp_all
    have b: "bitlen n = Suc (bitlen (n div 2))"
      using "1.prems" by (subst bitlen.simps) simp
    have pos: "0 < bitlen (n div 2)" using h by (subst bitlen.simps) simp
    have "2 ^ (bitlen n - 1) = 2 * 2 ^ (bitlen (n div 2) - 1)"
      using pos b by (cases "bitlen (n div 2)") simp_all
    also have "\<dots> \<le> 2 * (n div 2)" using ih(1) by simp
    also have "\<dots> \<le> n" by simp
    finally have lo: "2 ^ (bitlen n - 1) \<le> n" .
    have "n < 2 * (n div 2) + 2" by presburger
    also have "\<dots> \<le> 2 * 2 ^ bitlen (n div 2)" using ih(2) by simp
    finally have hi: "n < 2 ^ bitlen n" by (simp add: b)
    show ?thesis using lo hi by simp
  qed
qed

lemma bitlen_pos: "0 < n \<Longrightarrow> 0 < bitlen n"
  by (subst bitlen.simps) simp

lemma floor_nat_bounds:
  fixes x :: rat
  assumes "1 \<le> x"
  shows "0 < nat \<lfloor>x\<rfloor>" "of_nat (nat \<lfloor>x\<rfloor>) \<le> x" "x < of_nat (nat \<lfloor>x\<rfloor>) + 1"
proof -
  have f: "1 \<le> \<lfloor>x\<rfloor>" using assms by (simp add: le_floor_iff)
  then show "0 < nat \<lfloor>x\<rfloor>" by simp
  have c: "(of_nat (nat \<lfloor>x\<rfloor>) :: rat) = of_int \<lfloor>x\<rfloor>" using f by simp
  show "of_nat (nat \<lfloor>x\<rfloor>) \<le> x" unfolding c by (rule of_int_floor_le)
  show "x < of_nat (nat \<lfloor>x\<rfloor>) + 1" unfolding c by linarith
qed

lemma bitlen_bounds_rat:
  assumes "0 < m"
  shows "(2::rat) ^ (bitlen m - 1) \<le> of_nat m" "of_nat m + 1 \<le> (2::rat) ^ bitlen m"
proof -
  note b = bitlen_bounds [OF assms]
  have "of_nat (2 ^ (bitlen m - 1)) \<le> (of_nat m :: rat)"
    using b by (simp only: of_nat_le_iff)
  then show "(2::rat) ^ (bitlen m - 1) \<le> of_nat m" by simp
  have "Suc m \<le> 2 ^ bitlen m" using b by simp
  then have "of_nat (Suc m) \<le> (of_nat (2 ^ bitlen m) :: rat)" by (simp only: of_nat_le_iff)
  then show "of_nat m + 1 \<le> (2::rat) ^ bitlen m" by simp
qed


lemma ilog2_bounds_ge1:
  assumes "1 \<le> x"
  shows "pow2 (ilog2 x) \<le> x \<and> x < pow2 (ilog2 x + 1)"
proof -
  define m where "m = nat \<lfloor>x\<rfloor>"
  have m: "0 < m" "of_nat m \<le> x" "x < of_nat m + 1"
    unfolding m_def using floor_nat_bounds [OF assms] by blast+
  have kpos: "0 < bitlen m" by (rule bitlen_pos [OF m(1)])
  have e: "ilog2 x = int (bitlen m - 1)"
    using assms kpos by (simp add: ilog2_def m_def)
  have e1: "ilog2 x + 1 = int (bitlen m)" using kpos by (simp add: e)
  have lo: "pow2 (ilog2 x) \<le> x"
    unfolding e pow2_nat using bitlen_bounds_rat(1) [OF m(1)] m(2) by linarith
  have hi: "x < pow2 (ilog2 x + 1)"
    unfolding e1 pow2_nat using bitlen_bounds_rat(2) [OF m(1)] m(3) by linarith
  show ?thesis using lo hi by simp
qed

lemma ilog2_bounds_lt1:
  assumes "0 < x" "x < 1"
  shows "pow2 (ilog2 x) \<le> x \<and> x < pow2 (ilog2 x + 1)"
proof -
  define y where "y = 1 / x"
  define m where "m = nat \<lfloor>y\<rfloor>"
  define k where "k = int (bitlen m)"
  have y1: "1 \<le> y" using assms by (simp add: y_def)
  have ypos: "0 < y" using y1 by simp
  have m: "0 < m" "of_nat m \<le> y" "y < of_nat m + 1"
    unfolding m_def using floor_nat_bounds [OF y1] by blast+
  have kpos: "0 < bitlen m" by (rule bitlen_pos [OF m(1)])
  have k1: "k - 1 = int (bitlen m - 1)" using kpos by (simp add: k_def)
  have ylo: "pow2 (k - 1) \<le> y"
    unfolding k1 pow2_nat using bitlen_bounds_rat(1) [OF m(1)] m(2) by linarith
  have yhi: "y < pow2 k"
    unfolding k_def pow2_nat using bitlen_bounds_rat(2) [OF m(1)] m(3) by linarith
  have xy: "x * y = 1" using assms by (simp add: y_def)
  have two: "pow2 (1 - k) * pow2 k = 2"
    using pow2_add [of "1 - k" k] by (simp add: pow2_def)
  have one: "pow2 (- k) * pow2 k = 1"
    using pow2_add [of "- k" k] by (simp add: pow2_def)
  have one': "pow2 (1 - k) * pow2 (k - 1) = 1"
    using pow2_add [of "1 - k" "k - 1"] by (simp add: pow2_def)
  have xlo: "pow2 (- k) < x"
  proof (rule ccontr)
    assume "\<not> pow2 (- k) < x"
    then have "x \<le> pow2 (- k)" by simp
    then have "x * y \<le> pow2 (- k) * y" using ypos by (simp add: mult_right_mono)
    also have "\<dots> < pow2 (- k) * pow2 k" using yhi pow2_pos [of "- k"] by (simp add: mult_strict_left_mono)
    finally show False using xy one by simp
  qed
  have xhi: "x \<le> pow2 (1 - k)"
  proof (rule ccontr)
    assume "\<not> x \<le> pow2 (1 - k)"
    then have "pow2 (1 - k) < x" by simp
    then have "pow2 (1 - k) * pow2 (k - 1) < x * pow2 (k - 1)"
      using pow2_pos [of "k - 1"] by (simp add: mult_strict_right_mono)
    also have "\<dots> \<le> x * y" using ylo assms(1) by (simp add: mult_left_mono)
    finally show False using xy one' by simp
  qed
  have e: "ilog2 x = (if x * pow2 k = 2 then 1 - k else - k)"
    using assms(2) by (simp add: ilog2_def Let_def k_def m_def y_def)
  show ?thesis
  proof (cases "x * pow2 k = 2")
    case True
    then have "x * pow2 k = pow2 (1 - k) * pow2 k" using two by simp
    then have x: "x = pow2 (1 - k)" using pow2_pos [of k] by simp
    have "pow2 (1 - k) < pow2 (1 - k + 1)" by (rule pow2_strict_mono) simp
    then show ?thesis using e True x by simp
  next
    case False
    then have "x \<noteq> pow2 (1 - k)" using two by auto
    then have "x < pow2 (1 - k)" using xhi by simp
    moreover have "- k + 1 = 1 - k" by simp
    ultimately show ?thesis using e False xlo by simp
  qed
qed

lemma ilog2_bounds:
  assumes "0 < x"
  shows "pow2 (ilog2 x) \<le> x \<and> x < pow2 (ilog2 x + 1)"
  using ilog2_bounds_ge1 [of x] ilog2_bounds_lt1 [of x] assms by (cases "1 \<le> x") simp_all

lemma ilog2_unique:
  assumes "0 < x" "pow2 e \<le> x" "x < pow2 (e + 1)"
  shows "ilog2 x = e"
proof (rule ccontr)
  assume ne: "ilog2 x \<noteq> e"
  note b = ilog2_bounds [OF assms(1)]
  show False
  proof (cases "ilog2 x < e")
    case True
    then have "pow2 (ilog2 x + 1) \<le> pow2 e" by (intro pow2_mono) simp
    then show False using b assms(2) by simp
  next
    case False
    then have "e + 1 \<le> ilog2 x" using ne by simp
    then have "pow2 (e + 1) \<le> pow2 (ilog2 x)" by (rule pow2_mono)
    then show False using b assms(3) by simp
  qed
qed

lemma round_half_even_near:
  assumes "\<bar>q - of_int n\<bar> < 1 / 2"
  shows "round_half_even q = n"
proof (cases "of_int n \<le> q")
  case True
  have "of_int n \<le> q" "q < of_int n + 1" using assms True by linarith+
  then have "\<lfloor>q\<rfloor> = n" by (rule floor_unique)
  then show ?thesis using assms True by (simp add: round_half_even_def Let_def)
next
  case False
  have c: "(of_int (n - 1) :: rat) = of_int n - 1" by simp
  have "of_int (n - 1) \<le> q" "q < of_int (n - 1) + 1"
    unfolding c using assms False by linarith+
  then have f: "\<lfloor>q\<rfloor> = n - 1" by (rule floor_unique)
  have "1 / 2 < q - of_int (n - 1)" unfolding c using assms False by linarith
  then show ?thesis using f by (simp add: round_half_even_def Let_def)
qed

lemma round_to_float_eval:
  assumes "0 < x" "pow2 e \<le> x" "x < pow2 (e + 1)" "- 1022 \<le> e"
    "\<bar>x / pow2 (e - 52) - of_int n\<bar> < 1 / 2"
    "\<bar>of_int n * pow2 (e - 52)\<bar> < pow2 1024"
  shows "round_to_float x = Finite (of_int n * pow2 (e - 52))"
proof -
  have a: "\<bar>x\<bar> = x" using assms(1) by simp
  have l: "ilog2 x = e" using assms(1-3) by (rule ilog2_unique)
  have m: "max e (- 1022) = e" using assms(4) by simp
  have r: "round_half_even (x / pow2 (e - 52)) = n" by (rule round_half_even_near [OF assms(5)])
  have nz: "x \<noteq> 0" using assms(1) by simp
  have no: "\<not> pow2 1024 \<le> \<bar>of_int n * pow2 (e - 52)\<bar>" using assms(6) by simp
  show ?thesis
    unfolding round_to_float_def Let_def a l m r using nz no by simp
qed

text \<open>The same for an exact result half way between two floats.\<close>

lemma round_half_even_tie:
  assumes "q = of_int n + 1 / 2"
  shows "round_half_even q = (if even n then n else n + 1)"
proof -
  have "of_int n \<le> q" "q < of_int n + 1" using assms by simp_all
  then have "\<lfloor>q\<rfloor> = n" by (rule floor_unique)
  then show ?thesis using assms by (simp add: round_half_even_def Let_def)
qed

lemma round_to_float_eval_tie:
  assumes "0 < x" "pow2 e \<le> x" "x < pow2 (e + 1)" "- 1022 \<le> e"
    "x / pow2 (e - 52) = of_int n + 1 / 2" "m = (if even n then n else n + 1)"
    "\<bar>of_int m * pow2 (e - 52)\<bar> < pow2 1024"
  shows "round_to_float x = Finite (of_int m * pow2 (e - 52))"
proof -
  have a: "\<bar>x\<bar> = x" using assms(1) by simp
  have l: "ilog2 x = e" using assms(1-3) by (rule ilog2_unique)
  have mx: "max e (- 1022) = e" using assms(4) by simp
  have r: "round_half_even (x / pow2 (e - 52)) = m"
    using round_half_even_tie [OF assms(5)] assms(6) by simp
  have nz: "x \<noteq> 0" using assms(1) by simp
  have no: "\<not> pow2 1024 \<le> \<bar>of_int m * pow2 (e - 52)\<bar>" using assms(7) by simp
  show ?thesis
    unfolding round_to_float_def Let_def a l mx r using nz no by simp
qed

text \<open>A finite result is within half a unit in the last place of the exact value.\<close>

lemma round_half_even_error: "\<bar>of_int (round_half_even q) - q\<bar> \<le> 1 / 2"
proof -
  have "of_int \<lfloor>q\<rfloor> \<le> q" "q < of_int \<lfloor>q\<rfloor> + 1" by linarith+
  then show ?thesis by (auto simp: round_half_even_def Let_def)
qed

lemma round_to_float_error:
  assumes "round_to_float x = Finite y"
  shows "\<bar>y - x\<bar> \<le> pow2 (max (ilog2 \<bar>x\<bar>) (- 1022) - 53)"
proof (cases "x = 0")
  case True
  then show ?thesis using assms pow2_pos [of "max (ilog2 \<bar>x\<bar>) (- 1022) - 53"]
    by (simp add: round_to_float_def)
next
  case False
  define e where "e = max (ilog2 \<bar>x\<bar>) (- 1022)"
  define u where "u = pow2 (e - 52)"
  have u: "0 < u" unfolding u_def by (rule pow2_pos)
  have y: "y = of_int (round_half_even (x / u)) * u"
    using assms False
    by (simp add: round_to_float_def Let_def e_def [symmetric] u_def [symmetric] split: if_splits)
  have "y - x = (of_int (round_half_even (x / u)) - x / u) * u"
    using u by (simp add: y left_diff_distrib)
  then have "\<bar>y - x\<bar> = \<bar>of_int (round_half_even (x / u)) - x / u\<bar> * u"
    using u by (simp add: abs_mult)
  also have "\<dots> \<le> 1 / 2 * u"
    using round_half_even_error [of "x / u"] u by (intro mult_right_mono) simp_all
  also have "\<dots> = pow2 (e - 53)"
    using pow2_add [of "e - 53" 1] by (simp add: u_def pow2_def)
  finally show ?thesis by (simp add: e_def)
qed

section \<open>The arithmetic of the price\<close>

lemma TAX_RATE_eval: "TAX_RATE = Finite (3602879701896397 / 36028797018963968)"
  unfolding TAX_RATE_def
  using round_to_float_eval [of "1 / 10" "- 4" 7205759403792794] by (simp add: pow2_def)

lemma one_plus_rate: "fadd (Finite 1) TAX_RATE = Finite (2476979795053773 / 2251799813685248)"
  unfolding TAX_RATE_eval
  using round_to_float_eval [of "1 + 3602879701896397 / 36028797018963968" 0 4953959590107546]
  by (simp add: pow2_def)

lemma round_small:
  "round_to_float 1 = Finite 1" "round_to_float 2 = Finite 2" "round_to_float 3 = Finite 3"
  "round_to_float 4 = Finite 4" "round_to_float 5 = Finite 5" "round_to_float 7 = Finite 7"
  "round_to_float 8 = Finite 8"
  using round_to_float_eval [of 1 0 "2 ^ 52"] round_to_float_eval [of 2 1 "2 ^ 52"]
    round_to_float_eval [of 3 1 "3 * 2 ^ 51"] round_to_float_eval [of 4 2 "2 ^ 52"]
    round_to_float_eval [of 5 2 "5 * 2 ^ 50"] round_to_float_eval [of 7 2 "7 * 2 ^ 50"]
    round_to_float_eval [of 8 3 "2 ^ 52"]
  by (simp_all add: pow2_def)

lemma tax8a:
  "fmul (Finite 8) (Finite (2476979795053773 / 2251799813685248)) = Finite (2476979795053773 / 281474976710656)"
  using round_to_float_eval [of "8 * (2476979795053773 / 2251799813685248)" 3 4953959590107546]
  by (simp add: pow2_def)

lemma tax8b:
  "fmul (Finite (2476979795053773 / 281474976710656)) (Finite (2476979795053773 / 2251799813685248))
     = Finite (5449355549118301 / 562949953421312)"
  using round_to_float_eval [of "2476979795053773 / 281474976710656 * (2476979795053773 / 2251799813685248)" 3 5449355549118301]
  by (simp add: pow2_def)

lemma round_half_even_nonneg: "0 \<le> q \<Longrightarrow> 0 \<le> round_half_even q"
proof -
  assume "0 \<le> q"
  then have "0 \<le> \<lfloor>q\<rfloor>" by simp
  then show ?thesis by (simp add: round_half_even_def Let_def)
qed

lemma round_to_float_nonneg: "0 \<le> x \<Longrightarrow> fge0 (round_to_float x)"
proof (cases "x = 0")
  case True
  then show ?thesis by (simp add: round_to_float_def)
next
  case False
  assume "0 \<le> x"
  then have x: "0 < x" using False by simp
  define u where "u = pow2 (max (ilog2 x) (- 1022) - 52)"
  have u: "0 < u" unfolding u_def by (rule pow2_pos)
  have "0 \<le> x / u" using x u by simp
  then have "0 \<le> round_half_even (x / u)" by (rule round_half_even_nonneg)
  then have y: "0 \<le> of_int (round_half_even (x / u)) * u" using u by simp
  have ax: "\<bar>x\<bar> = x" using x by simp
  show ?thesis
    unfolding round_to_float_def Let_def ax u_def [symmetric] using x y by simp
qed

lemma fadd_nonneg: "fge0 a \<Longrightarrow> fge0 b \<Longrightarrow> fge0 (fadd a b)"
  by (cases a; cases b) (simp_all add: round_to_float_nonneg)

lemma fmul_nonneg: "fge0 a \<Longrightarrow> 0 < c \<Longrightarrow> fge0 (fmul a (Finite c))"
  by (cases a) (simp_all add: round_to_float_nonneg inf_signed_def)

lemma prices_nonneg: "(k, p) \<in> set INGREDIENT_PRICES \<Longrightarrow> fge0 p"
  by (auto simp: INGREDIENT_PRICES_def round_to_float_nonneg)

lemma price_get_nonneg: "fge0 (price_get k)"
  by (auto simp: price_get_def split: option.splits dest: map_of_SomeD prices_nonneg)

lemma foldl_fadd_nonneg:
  "fge0 t \<Longrightarrow> fge0 (foldl fadd t (map (\<lambda>s. price_get (lower s)) names))"
  by (induction names arbitrary: t) (simp_all add: fadd_nonneg price_get_nonneg)

lemma sum_ingredients_from_foldl:
  "fst (sum_ingredients_from t lg xs) =
     foldl fadd t (map (\<lambda>s. price_get (lower s)) (text_entries xs))"
  by (induction t lg xs rule: sum_ingredients_from.induct) simp_all

lemma calculate_tax_twice:
  "calculate_tax p TAX_ITERATIONS =
     fmul (fmul p (fadd (Finite 1) TAX_RATE)) (fadd (Finite 1) TAX_RATE)"
  by (simp add: calculate_tax.simps TAX_ITERATIONS_def)

lemma calculate_burger_price_value:
  "xs \<noteq> [] \<Longrightarrow> fst (calculate_burger_price (Some xs)) =
     Inr (fmul (fmul (foldl fadd (Finite 0) (map (\<lambda>s. price_get (lower s)) (text_entries xs)))
                     (fadd (Finite 1) TAX_RATE)) (fadd (Finite 1) TAX_RATE))"
  using sum_ingredients_from_foldl [of "Finite 0" "[]" xs]
  by (cases "sum_ingredients_from (Finite 0) [] xs")
    (simp add: calculate_burger_price_def sum_ingredients_def calculate_tax_twice)

lemma taxed_nonneg:
  "fge0 p \<Longrightarrow> fge0 (fmul (fmul p (fadd (Finite 1) TAX_RATE)) (fadd (Finite 1) TAX_RATE))"
  unfolding one_plus_rate by (simp add: fmul_nonneg)

lemma prices_eval:
  "price_get ''bun'' = Finite 2" "price_get ''beef'' = Finite 5" "price_get ''cheese'' = Finite 1"
  "price_get ''meat'' = Finite 0" "map_of INGREDIENT_PRICES ''meat'' = None"
  by (simp_all add: price_get_def INGREDIENT_PRICES_def round_small)

lemma lower_names:
  "lower ''bun'' = ''bun''" "lower ''beef'' = ''beef''" "lower ''cheese'' = ''cheese''"
  "lower ''meat'' = ''meat''"
  by (simp_all add: lower_def char_lower_def)

lemma base_bun_beef_cheese:
  "foldl fadd (Finite 0) (map (\<lambda>s. price_get (lower s))
     (text_entries [PyStr ''bun'', PyStr ''beef'', PyStr ''cheese''])) = Finite 8"
  by (simp add: lower_names prices_eval round_small)

lemma price_bun_beef_cheese:
  "fst (calculate_burger_price (Some [PyStr ''bun'', PyStr ''beef'', PyStr ''cheese''])) =
     Inr (Finite (5449355549118301 / 562949953421312))"
  using calculate_burger_price_value [of "[PyStr ''bun'', PyStr ''beef'', PyStr ''cheese'']"]
  by (simp only: base_bun_beef_cheese one_plus_rate tax8a tax8b) simp

lemma round_968: "round_to_float (968 / 100) = Finite (1362338887279575 / 140737488355328)"
  using round_to_float_eval [of "968 / 100" 3 5449355549118300] by (simp add: pow2_def)

lemma round2_968: "round2 (Finite (5449355549118301 / 562949953421312)) = round_to_float (968 / 100)"
  using round_half_even_near [of "5449355549118301 / 562949953421312 * 100" 968]
  by simp

section \<open>The price of a list\<close>

text \<open>
  Claim C1, as the code has it.  For a non-empty list the price is the sum of the Price
  Table prices of the lower-cased text entries (added from 0.0 in list order, an
  unknown name adding 0.0), multiplied by \<open>1 + 0.1\<close> and then once more, every
  addition and product rounded to the nearest float; the result is never negative.  For
  bun, beef and cheese the sum is 8.0 and the price is the float
  5449355549118301 / 2^49 = 9.680000000000001, one unit in the last place above the float
  9.68; it differs from 9.68 by less than 10^-14 and \<open>round(price, 2)\<close> is 9.68.
\<close>

theorem price_formula:
  "(xs \<noteq> [] \<longrightarrow>
      fst (calculate_burger_price (Some xs)) =
        Inr (fmul (fmul (foldl fadd (Finite 0)
                           (map (\<lambda>s. price_get (lower s)) (text_entries xs)))
                        (fadd (Finite 1) TAX_RATE)) (fadd (Finite 1) TAX_RATE))
      \<and> (\<exists>p. fst (calculate_burger_price (Some xs)) = Inr p \<and> fge0 p))
   \<and> (map_of INGREDIENT_PRICES k = None \<longrightarrow> price_get k = Finite 0)
   \<and> (map_of INGREDIENT_PRICES k = Some v \<longrightarrow> price_get k = v)
   \<and> foldl fadd (Finite 0) (map (\<lambda>s. price_get (lower s))
        (text_entries [PyStr ''bun'', PyStr ''beef'', PyStr ''cheese''])) = Finite 8
   \<and> fst (calculate_burger_price (Some [PyStr ''bun'', PyStr ''beef'', PyStr ''cheese''])) =
        Inr (Finite (5449355549118301 / 562949953421312))
   \<and> round2 (Finite (5449355549118301 / 562949953421312)) = round_to_float (968 / 100)
   \<and> \<bar>5449355549118301 / 562949953421312 - 968 / 100\<bar> < (1 / 10 ^ 14 :: rat)"
proof -
  have nn: "fge0 (fmul (fmul (foldl fadd (Finite 0)
                           (map (\<lambda>s. price_get (lower s)) (text_entries xs)))
                        (fadd (Finite 1) TAX_RATE)) (fadd (Finite 1) TAX_RATE))"
    by (intro taxed_nonneg foldl_fadd_nonneg) simp
  have c1: "xs \<noteq> [] \<longrightarrow>
      fst (calculate_burger_price (Some xs)) =
        Inr (fmul (fmul (foldl fadd (Finite 0)
                           (map (\<lambda>s. price_get (lower s)) (text_entries xs)))
                        (fadd (Finite 1) TAX_RATE)) (fadd (Finite 1) TAX_RATE))
      \<and> (\<exists>p. fst (calculate_burger_price (Some xs)) = Inr p \<and> fge0 p)"
    using calculate_burger_price_value [of xs] nn by simp
  have c2: "map_of INGREDIENT_PRICES k = None \<longrightarrow> price_get k = Finite 0"
    and c3: "map_of INGREDIENT_PRICES k = Some v \<longrightarrow> price_get k = v"
    by (simp_all add: price_get_def)
  have c4: "\<bar>5449355549118301 / 562949953421312 - 968 / 100\<bar> < (1 / 10 ^ 14 :: rat)"
    by simp
  show ?thesis
    by (intro conjI) (fact c1 c2 c3 base_bun_beef_cheese price_bun_beef_cheese round2_968 c4)+
qed

theorem price_formula_witness:
  "[PyStr ''bun'', PyStr ''unknown'', PyStr ''cheese''] \<noteq> []
   \<and> (\<exists>p. fst (calculate_burger_price (Some [PyStr ''bun'', PyStr ''unknown'', PyStr ''cheese'']))
            = Inr p \<and> fge0 p)
   \<and> map_of INGREDIENT_PRICES ''unknown'' = None \<and> price_get ''unknown'' = Finite 0
   \<and> map_of INGREDIENT_PRICES ''beef'' = Some (round_to_float 5)
   \<and> price_get ''beef'' = round_to_float 5"
proof -
  have u: "map_of INGREDIENT_PRICES ''unknown'' = None"
    by (simp add: INGREDIENT_PRICES_def)
  have b: "map_of INGREDIENT_PRICES ''beef'' = Some (round_to_float 5)"
    by (simp add: INGREDIENT_PRICES_def)
  have ne: "[PyStr ''bun'', PyStr ''unknown'', PyStr ''cheese''] \<noteq> []" by simp
  show ?thesis
    using price_formula [of "[PyStr ''bun'', PyStr ''unknown'', PyStr ''cheese'']" "''unknown''"]
      price_formula [of "[]" "''beef''" "round_to_float 5"] u b ne
    by blast
qed

text \<open>
  The price of bun, beef and cheese is neither the float 9.68 nor the number 9.68.
\<close>

theorem price_968_counterexample:
  "fst (calculate_burger_price (Some [PyStr ''bun'', PyStr ''beef'', PyStr ''cheese''])) \<noteq>
     Inr (round_to_float (968 / 100))
   \<and> fst (calculate_burger_price (Some [PyStr ''bun'', PyStr ''beef'', PyStr ''cheese''])) \<noteq>
     Inr (Finite (968 / 100))"
  unfolding price_bun_beef_cheese round_968 by simp

section \<open>The price of an order\<close>

lemma tax3a:
  "fmul (Finite 3) (Finite (2476979795053773 / 2251799813685248)) =
     Finite (7430939385161319 / 2251799813685248)"
  using round_to_float_eval [of "3 * (2476979795053773 / 2251799813685248)" 1 7430939385161319]
  by (simp add: pow2_def)

lemma tax3b:
  "fmul (Finite (7430939385161319 / 2251799813685248)) (Finite (2476979795053773 / 2251799813685248))
     = Finite (2043508330919363 / 562949953421312)"
  using round_to_float_eval [of "7430939385161319 / 2251799813685248 * (2476979795053773 / 2251799813685248)" 1 8174033323677452]
  by (simp add: pow2_def)

lemma round_363: "round_to_float (363 / 100) = Finite (4087016661838725 / 1125899906842624)"
  using round_to_float_eval [of "363 / 100" 1 8174033323677450] by (simp add: pow2_def)

lemma round2_363: "round2 (Finite (2043508330919363 / 562949953421312)) = round_to_float (363 / 100)"
  using round_half_even_near [of "2043508330919363 / 562949953421312 * 100" 363]
  by simp

lemma base_price_ingredients:
  "foldl fadd (Finite 0) (map (\<lambda>s. price_get (lower s)) (text_entries price_ingredients)) = Finite 3"
  by (simp add: price_ingredients_def lower_names prices_eval round_small)

lemma three: "fadd (fadd (Finite 2) (Finite 0)) (Finite 1) = Finite 3"
  by (simp add: round_small)

lemma price_price_ingredients:
  "calculate_burger_price (Some price_ingredients) =
     (Inr (fmul (fmul (Finite 3) (fadd (Finite 1) TAX_RATE)) (fadd (Finite 1) TAX_RATE)), [])"
proof -
  obtain p where p: "calculate_burger_price (Some price_ingredients) = (Inr p, [])"
    using price_ingredients_ok by blast
  have "price_ingredients \<noteq> []" by (simp add: price_ingredients_def)
  from calculate_burger_price_value [OF this] p
  show ?thesis by (simp add: base_price_ingredients)
qed

lemma rate_squared:
  "fmul (Finite (2476979795053773 / 2251799813685248)) (Finite (2476979795053773 / 2251799813685248))
     = Finite (5449355549118301 / 4503599627370496)"
  using round_to_float_eval [of "2476979795053773 / 2251799813685248 * (2476979795053773 / 2251799813685248)" 0 5449355549118301]
  by (simp add: pow2_def)

lemma tax3c:
  "fmul (Finite 3) (Finite (5449355549118301 / 4503599627370496))
     = Finite (2043508330919363 / 562949953421312)"
  using round_to_float_eval_tie [of "3 * (5449355549118301 / 4503599627370496)" 1
      8174033323677451 8174033323677452]
  by (simp add: pow2_def)

lemma either_order:
  "fmul (fmul (Finite 3) (fadd (Finite 1) TAX_RATE)) (fadd (Finite 1) TAX_RATE) =
   fmul (Finite 3) (fmul (fadd (Finite 1) TAX_RATE) (fadd (Finite 1) TAX_RATE))"
  by (simp only: one_plus_rate tax3a tax3b rate_squared tax3c)

text \<open>
  Claim C2.  \<open>assemble_burger\<close> prices the literal list bun, meat, cheese.  The word
  meat is no key of the Price Table and adds 0.0, so the price computed is
  \<open>(2.0 + 0 + 1.0) * 1.1 * 1.1\<close> in float arithmetic, and whatever the user answered,
  the dictionary \<open>burger_data\<close> holds this price rounded to two decimals, the
  float 3.63.  Multiplying 3.0 by the float square of 1.1 gives the same float.
\<close>

theorem order_price_fixed:
  "price_ingredients = [PyStr ''bun'', PyStr ''meat'', PyStr ''cheese'']
   \<and> map_of INGREDIENT_PRICES (lower ''meat'') = None \<and> price_get (lower ''meat'') = Finite 0
   \<and> calculate_burger_price (Some price_ingredients) =
       (Inr (fmul (fmul (fadd (fadd (Finite 2) (Finite 0)) (Finite 1))
                        (fadd (Finite 1) TAX_RATE)) (fadd (Finite 1) TAX_RATE)), [])
   \<and> (fst (build_burger_data s) = Inr d \<longrightarrow>
        price d = round2 (fmul (fmul (fadd (fadd (Finite 2) (Finite 0)) (Finite 1))
                                     (fadd (Finite 1) TAX_RATE)) (fadd (Finite 1) TAX_RATE))
        \<and> price d = round_to_float (363 / 100))
   \<and> fmul (fmul (Finite 3) (fadd (Finite 1) TAX_RATE)) (fadd (Finite 1) TAX_RATE) =
       fmul (Finite 3) (fmul (fadd (Finite 1) TAX_RATE) (fadd (Finite 1) TAX_RATE))"
proof -
  have a: "price d = round2 (fmul (fmul (Finite 3) (fadd (Finite 1) TAX_RATE))
                                  (fadd (Finite 1) TAX_RATE))"
    if "fst (build_burger_data s) = Inr d"
    using that
    by (auto simp: build_burger_data_def Let_def price_price_ingredients
        split: prod.splits sum.splits)
  have b: "round2 (fmul (fmul (Finite 3) (fadd (Finite 1) TAX_RATE)) (fadd (Finite 1) TAX_RATE))
             = round_to_float (363 / 100)"
    by (simp only: one_plus_rate tax3a tax3b round2_363)
  have c1: "price_ingredients = [PyStr ''bun'', PyStr ''meat'', PyStr ''cheese'']"
    by (simp add: price_ingredients_def)
  have c2: "map_of INGREDIENT_PRICES (lower ''meat'') = None"
    and c3: "price_get (lower ''meat'') = Finite 0"
    by (simp_all add: lower_names prices_eval)
  have c4: "calculate_burger_price (Some price_ingredients) =
       (Inr (fmul (fmul (fadd (fadd (Finite 2) (Finite 0)) (Finite 1))
                        (fadd (Finite 1) TAX_RATE)) (fadd (Finite 1) TAX_RATE)), [])"
    unfolding three by (rule price_price_ingredients)
  have c5: "fst (build_burger_data s) = Inr d \<longrightarrow>
        price d = round2 (fmul (fmul (fadd (fadd (Finite 2) (Finite 0)) (Finite 1))
                                     (fadd (Finite 1) TAX_RATE)) (fadd (Finite 1) TAX_RATE))
        \<and> price d = round_to_float (363 / 100)"
    unfolding three using a b by simp
  show ?thesis
    by (intro conjI) (fact c1 c2 c3 c4 c5 either_order)+
qed

lemma build_answering:
  "fst (build_burger_data answering) =
     Inr \<lparr>bun = ''sesame'', meat = ''beef'', sauce = ''ketchup and mustard'', cheese = ''cheddar'',
          burger_id = 1, price = round_to_float (363 / 100), timestamp = ''2024-01-01T12:00:00''\<rparr>"
proof -
  obtain c s1 where
    g: "gather_components (answering\<lparr>BURGER_COUNT := BURGER_COUNT answering + 1\<rparr>) = (Inr c, s1)"
    and c: "c = \<lparr>bun = ''sesame'', meat = ''beef'', sauce = ''ketchup and mustard'',
                 cheese = ''cheddar''\<rparr>"
    using gather_answering
    by (cases "gather_components (answering\<lparr>BURGER_COUNT := 1\<rparr>)") (simp add: answering_def)
  have f: "BURGER_COUNT s1 = 1" "now s1 = ''2024-01-01T12:00:00''"
    using g by (auto simp: gather_components_def get_bun_def get_meat_def get_cheese_def
        input_def answering_def Let_def strip_plain get_sauce_eq lower_beef valid_meats_def)
  have b: "round2 (fmul (fmul (Finite 3) (fadd (Finite 1) TAX_RATE)) (fadd (Finite 1) TAX_RATE))
             = round_to_float (363 / 100)"
    by (simp only: one_plus_rate tax3a tax3b round2_363)
  show ?thesis
    by (simp add: build_burger_data_def Let_def g price_price_ingredients c f b
        get_order_timestamp_def)
qed

theorem order_price_fixed_witness:
  "fst (build_burger_data answering) =
     Inr \<lparr>bun = ''sesame'', meat = ''beef'', sauce = ''ketchup and mustard'', cheese = ''cheddar'',
          burger_id = 1, price = round_to_float (363 / 100), timestamp = ''2024-01-01T12:00:00''\<rparr>
   \<and> price \<lparr>bun = ''sesame'', meat = ''beef'', sauce = ''ketchup and mustard'', cheese = ''cheddar'',
          burger_id = 1, price = round_to_float (363 / 100), timestamp = ''2024-01-01T12:00:00''\<rparr>
       = round_to_float (363 / 100)
   \<and> price_get (lower ''beef'') = round_to_float 5"
  using order_price_fixed [of answering "\<lparr>bun = ''sesame'', meat = ''beef'',
      sauce = ''ketchup and mustard'', cheese = ''cheddar'',
      burger_id = 1, price = round_to_float (363 / 100), timestamp = ''2024-01-01T12:00:00''\<rparr>"]
    build_answering
  by (simp add: lower_names price_get_def INGREDIENT_PRICES_def)

section \<open>The recursion limit\<close>

lemma calculate_tax_within_eq:
  "calculate_tax_within d p n =
     (if nat n < d then Inr (calculate_tax p n)
      else Inl (Exn RecursionError ''maximum recursion depth exceeded''))"
proof (induction d p n rule: calculate_tax_within.induct)
  case (1 d p n)
  show ?case
  proof (cases "d = 0")
    case True
    then show ?thesis by (subst calculate_tax_within.simps) simp
  next
    case d: False
    show ?thesis
    proof (cases "n \<le> 0")
      case True
      then show ?thesis
        using d by (subst calculate_tax_within.simps) (simp add: calculate_tax.simps)
    next
      case False
      have l: "(nat (n - 1) < d - 1) = (nat n < d)" using False d by auto
      have t: "calculate_tax p n = calculate_tax (fmul p (fadd (Finite 1) TAX_RATE)) (n - 1)"
        using False by (subst calculate_tax.simps) simp
      have "calculate_tax_within d p n =
          calculate_tax_within (d - 1) (fmul p (fadd (Finite 1) TAX_RATE)) (n - 1)"
        using False d by (subst calculate_tax_within.simps) simp
      also have "\<dots> = (if nat (n - 1) < d - 1
            then Inr (calculate_tax (fmul p (fadd (Finite 1) TAX_RATE)) (n - 1))
            else Inl (Exn RecursionError ''maximum recursion depth exceeded''))"
        using "1.IH" d False by simp
      finally show ?thesis by (simp only: l t)
    qed
  qed
qed

text \<open>
  Claim C9, as the code has it.  The recursion of \<open>calculate_tax\<close> is well founded on
  the iteration count, so a call always ends; but it ends with a price only when the
  interpreter has more frames left than the count: then the result is the price
  multiplied \<open>nat n\<close> times by \<open>1 + TAX_RATE\<close> (the price itself for a count of zero
  or less, given one frame for the call), and otherwise the call raises RecursionError.
  The call the program makes, with two iterations, returns whenever three frames are
  left.
\<close>

theorem calculate_tax_total:
  "calculate_tax_within d p n =
     (if nat n < d then Inr (((\<lambda>x. fmul x (fadd (Finite 1) TAX_RATE)) ^^ nat n) p)
      else Inl (Exn RecursionError ''maximum recursion depth exceeded''))
   \<and> (n \<le> 0 \<and> 0 < d \<longrightarrow> calculate_tax_within d p n = Inr p)
   \<and> (2 < d \<longrightarrow> calculate_tax_within d p TAX_ITERATIONS =
         Inr (fmul (fmul p (fadd (Finite 1) TAX_RATE)) (fadd (Finite 1) TAX_RATE)))"
proof -
  have a: "calculate_tax_within d p n =
     (if nat n < d then Inr (((\<lambda>x. fmul x (fadd (Finite 1) TAX_RATE)) ^^ nat n) p)
      else Inl (Exn RecursionError ''maximum recursion depth exceeded''))"
    by (simp only: calculate_tax_within_eq calculate_tax_funpow)
  have b: "n \<le> 0 \<and> 0 < d \<longrightarrow> calculate_tax_within d p n = Inr p"
    by (simp add: a)
  have c: "2 < d \<longrightarrow> calculate_tax_within d p TAX_ITERATIONS =
         Inr (fmul (fmul p (fadd (Finite 1) TAX_RATE)) (fadd (Finite 1) TAX_RATE))"
    using calculate_tax_twice [of p]
    by (simp add: calculate_tax_within_eq [of d p TAX_ITERATIONS]) (simp add: TAX_ITERATIONS_def)
  show ?thesis by (intro conjI) (fact a b c)+
qed

theorem calculate_tax_total_witness:
  "nat 2 < (3::nat)
   \<and> calculate_tax_within 3 (Finite 8) 2 = Inr (Finite (5449355549118301 / 562949953421312))
   \<and> \<not> nat 5 < (5::nat)
   \<and> calculate_tax_within 5 (Finite 8) 5 =
       Inl (Exn RecursionError ''maximum recursion depth exceeded'')
   \<and> (- 3 \<le> (0::int) \<and> 0 < (1::nat)) \<and> calculate_tax_within 1 (Finite 8) (- 3) = Inr (Finite 8)
   \<and> 2 < (3::nat)
   \<and> calculate_tax_within 3 (Finite 8) TAX_ITERATIONS =
       Inr (Finite (5449355549118301 / 562949953421312))"
proof -
  have e: "((\<lambda>x. fmul x (fadd (Finite 1) TAX_RATE)) ^^ nat 2) (Finite 8) =
      Finite (5449355549118301 / 562949953421312)"
    by (simp add: numeral_2_eq_2 one_plus_rate tax8a tax8b del: fmul.simps)
  have "calculate_tax_within 3 (Finite 8) 2 = Inr (Finite (5449355549118301 / 562949953421312))"
    using calculate_tax_total [of 3 "Finite 8" 2] e by simp
  moreover have "calculate_tax_within 5 (Finite 8) 5 =
       Inl (Exn RecursionError ''maximum recursion depth exceeded'')"
    using calculate_tax_total [of 5 "Finite 8" 5] by simp
  moreover have "calculate_tax_within 1 (Finite 8) (- 3) = Inr (Finite 8)"
    using calculate_tax_total [of 1 "Finite 8" "- 3"] by simp
  moreover have "calculate_tax_within 3 (Finite 8) TAX_ITERATIONS =
       Inr (Finite (5449355549118301 / 562949953421312))"
    using calculate_tax_total [of 3 "Finite 8" 0, THEN conjunct2, THEN conjunct2]
    by (simp add: one_plus_rate tax8a tax8b del: fmul.simps)
  ultimately show ?thesis by simp
qed

text \<open>
  With all of the interpreter's 1000 frames left, \<open>calculate_tax(1.0, 1000)\<close> returns no
  price: it raises RecursionError.
\<close>

theorem recursion_limit_counterexample:
  "calculate_tax_within 1000 (Finite 1) 1000 =
     Inl (Exn RecursionError ''maximum recursion depth exceeded'')"
  by (simp add: calculate_tax_within_eq)

section \<open>Letter case beyond Latin-1\<close>

lemma wide_eq_iff: "(wide a = wide b) = (a = b)"
  by (simp add: wide_def inj_map_eq_map inj_def)

lemma wide_lower_wide: "wide_lower (wide s) = wide (lower s)"
  by (simp add: wide_lower_def wide_def lower_def)

lemma map_of_wide:
  "map_of (map (\<lambda>(k, p). (wide k, p)) l) (wide x) = map_of l x"
  by (induction l) (auto simp: wide_eq_iff)

lemma wide_price_get_wide: "wide_price_get (wide k) = price_get k"
  by (simp add: wide_price_get_def price_get_def map_of_wide)

lemma wide_sum_refines:
  "wide_sum_ingredients_from t (map wide names) =
     fst (sum_ingredients_from t lg (map PyStr names))"
  by (induction names arbitrary: t) (simp_all add: wide_lower_wide wide_price_get_wide)

lemma wide_refines:
  "wide_calculate_burger_price (Some (map wide names)) =
     fst (calculate_burger_price (Some (map PyStr names)))"
  using wide_sum_refines [of "Finite 0" names "[]"]
  by (cases "sum_ingredients_from (Finite 0) [] (map PyStr names)")
    (simp add: wide_calculate_burger_price_def calculate_burger_price_def sum_ingredients_def)

lemma wide_sum_same_lower:
  "list_all2 (\<lambda>a b. wide_lower a = wide_lower b) us vs \<Longrightarrow>
     wide_sum_ingredients_from t us = wide_sum_ingredients_from t vs"
  by (induction us vs arbitrary: t rule: list_all2_induct) simp_all

lemma wide_same_lower:
  assumes "list_all2 (\<lambda>a b. wide_lower a = wide_lower b) us vs"
  shows "wide_calculate_burger_price (Some us) = wide_calculate_burger_price (Some vs)"
proof -
  have "(us = []) = (vs = [])" using assms by (cases us; cases vs) simp_all
  then show ?thesis
    by (simp add: wide_calculate_burger_price_def wide_sum_same_lower [OF assms])
qed

lemma long_s_unpriced: "wide_price_get (wide_lower long_s_sauce) = Finite 0"
  by (simp add: wide_price_get_def wide_lower_def long_s_sauce_def wide_def
      INGREDIENT_PRICES_def)

lemma zero_taxed: "fmul (Finite 0) (Finite c) = Finite 0" "fadd (Finite 0) (Finite 0) = Finite 0"
  by (simp_all add: round_to_float_def)

lemma price_long_s: "wide_calculate_burger_price (Some [long_s_sauce]) = Inr (Finite 0)"
  by (simp add: wide_calculate_burger_price_def long_s_unpriced calculate_tax_twice
      one_plus_rate zero_taxed del: fmul.simps fadd.simps)

lemma round_03: "round_to_float (3 / 10) = Finite (5404319552844595 / 18014398509481984)"
  using round_to_float_eval [of "3 / 10" "- 2" 5404319552844595] by (simp add: pow2_def)

lemma add_03:
  "fadd (Finite 0) (Finite (5404319552844595 / 18014398509481984)) =
     Finite (5404319552844595 / 18014398509481984)"
  using round_to_float_eval [of "5404319552844595 / 18014398509481984" "- 2" 5404319552844595]
  by (simp add: pow2_def)

lemma tax03a:
  "fmul (Finite (5404319552844595 / 18014398509481984)) (Finite (2476979795053773 / 2251799813685248))
     = Finite (5944751508129055 / 18014398509481984)"
  using round_to_float_eval [of "5404319552844595 / 18014398509481984 * (2476979795053773 / 2251799813685248)" "- 2" 5944751508129055]
  by (simp add: pow2_def)

lemma tax03b:
  "fmul (Finite (5944751508129055 / 18014398509481984)) (Finite (2476979795053773 / 2251799813685248))
     = Finite (6539226658941961 / 18014398509481984)"
  using round_to_float_eval [of "5944751508129055 / 18014398509481984 * (2476979795053773 / 2251799813685248)" "- 2" 6539226658941961]
  by (simp add: pow2_def)

lemma char_lower_letters:
  "char_lower CHR ''S'' = CHR ''s''" "char_lower CHR ''A'' = CHR ''a''"
  "char_lower CHR ''U'' = CHR ''u''" "char_lower CHR ''C'' = CHR ''c''"
  "char_lower CHR ''E'' = CHR ''e''"
  "char_lower CHR ''s'' = CHR ''s''" "char_lower CHR ''a'' = CHR ''a''"
  "char_lower CHR ''u'' = CHR ''u''" "char_lower CHR ''c'' = CHR ''c''"
  "char_lower CHR ''e'' = CHR ''e''"
  using char_lower_upper [of "CHR ''S''" "CHR ''s''"] char_lower_upper [of "CHR ''A''" "CHR ''a''"]
    char_lower_upper [of "CHR ''U''" "CHR ''u''"] char_lower_upper [of "CHR ''C''" "CHR ''c''"]
    char_lower_upper [of "CHR ''E''" "CHR ''e''"]
  by (simp_all add: is_upper_def)

lemma lower_SAUCE: "lower ''SAUCE'' = ''sauce''"
  by (simp add: lower_def char_lower_letters)

lemma price_get_sauce: "price_get ''sauce'' = Finite (5404319552844595 / 18014398509481984)"
  by (simp add: price_get_def INGREDIENT_PRICES_def round_03)

lemma price_SAUCE:
  "wide_calculate_burger_price (Some [wide ''SAUCE'']) =
     Inr (Finite (6539226658941961 / 18014398509481984))"
proof -
  have "wide_calculate_burger_price (Some [wide ''SAUCE'']) =
      fst (calculate_burger_price (Some [PyStr ''SAUCE'']))"
    using wide_refines [of "[''SAUCE'']"] by simp
  also have "\<dots> = Inr (Finite (6539226658941961 / 18014398509481984))"
    using calculate_burger_price_value [of "[PyStr ''SAUCE'']"]
    by (simp add: lower_SAUCE price_get_sauce add_03 one_plus_rate tax03a tax03b
        del: fmul.simps fadd.simps)
  finally show ?thesis .
qed

lemma long_s_recased: "list_all2 wide_recased_char long_s_sauce (wide ''SAUCE'')"
  by (simp add: long_s_sauce_def wide_def recased_char_def is_upper_def)

text \<open>
  Claim C8, as the code has it.  Changing the case of ASCII and Latin-1 letters in the
  names of an ingredient list changes neither the price nor the warnings: two lists that
  are entry by entry recasings of each other get the same result, and so do BUN, BEEF,
  CHEESE and bun, beef, cheese.  Over the wider text the price is the same for two lists
  whose names have the same \<open>lower\<close> form, entry by entry, and on names without a long
  s the wider calculation is the one of the program.
\<close>

theorem price_case_insensitive:
  "(list_all2 recased xs ys \<longrightarrow>
      calculate_burger_price (Some xs) = calculate_burger_price (Some ys))
   \<and> calculate_burger_price (Some [PyStr ''BUN'', PyStr ''BEEF'', PyStr ''CHEESE''])
     = calculate_burger_price (Some [PyStr ''bun'', PyStr ''beef'', PyStr ''cheese''])
   \<and> (list_all2 (\<lambda>a b. wide_lower a = wide_lower b) us vs \<longrightarrow>
        wide_calculate_burger_price (Some us) = wide_calculate_burger_price (Some vs))
   \<and> wide_calculate_burger_price (Some (map wide names)) =
       fst (calculate_burger_price (Some (map PyStr names)))"
proof -
  have gen: "calculate_burger_price (Some xs) = calculate_burger_price (Some ys)"
    if "list_all2 recased xs ys" for xs ys
  proof -
    have "(xs = []) = (ys = [])" using that by (cases xs; cases ys) simp_all
    then show ?thesis
      by (simp add: calculate_burger_price_def sum_ingredients_def
          sum_ingredients_from_recased [OF that])
  qed
  show ?thesis
    using gen gen [OF recased_upper_example] wide_same_lower [of us vs] wide_refines [of names]
    by blast
qed

theorem price_case_insensitive_witness:
  "list_all2 recased [PyStr ''Bun'', PyNone, PyStr ''toMATo'']
     [PyStr ''bUN'', PyNone, PyStr ''Tomato'']
   \<and> calculate_burger_price (Some [PyStr ''Bun'', PyNone, PyStr ''toMATo''])
     = calculate_burger_price (Some [PyStr ''bUN'', PyNone, PyStr ''Tomato''])
   \<and> list_all2 (\<lambda>a b. wide_lower a = wide_lower b)
        [wide ''Sauce'', long_s_sauce] [wide ''sAUCE'', long_s_sauce]
   \<and> wide_calculate_burger_price (Some [wide ''Sauce'', long_s_sauce]) =
       wide_calculate_burger_price (Some [wide ''sAUCE'', long_s_sauce])"
proof -
  have r: "list_all2 recased [PyStr ''Bun'', PyNone, PyStr ''toMATo'']
     [PyStr ''bUN'', PyNone, PyStr ''Tomato'']"
    by (simp add: recased_char_def is_upper_def)
  have w: "list_all2 (\<lambda>a b. wide_lower a = wide_lower b)
        [wide ''Sauce'', long_s_sauce] [wide ''sAUCE'', long_s_sauce]"
    by (simp add: wide_lower_def wide_def char_lower_letters)
  show ?thesis
    using price_case_insensitive [of "[PyStr ''Bun'', PyNone, PyStr ''toMATo'']"
        "[PyStr ''bUN'', PyNone, PyStr ''Tomato'']"
        "[wide ''Sauce'', long_s_sauce]" "[wide ''sAUCE'', long_s_sauce]"] r w
    by blast
qed

text \<open>
  The name sauce written with a long s, whose upper case is SAUCE, is a recasing of
  SAUCE; but \<open>lower\<close> leaves the long s alone, the result is no key of the Price Table,
  and the price is 0.0, while SAUCE is priced 0.36300000000000004.
\<close>

theorem long_s_counterexample:
  "list_all2 wide_recased_char long_s_sauce (wide ''SAUCE'')
   \<and> wide_calculate_burger_price (Some [long_s_sauce]) = Inr (Finite 0)
   \<and> wide_calculate_burger_price (Some [wide ''SAUCE'']) =
       Inr (Finite (6539226658941961 / 18014398509481984))
   \<and> wide_calculate_burger_price (Some [long_s_sauce]) \<noteq>
       wide_calculate_burger_price (Some [wide ''SAUCE''])"
  by (simp add: long_s_recased price_long_s price_SAUCE)

end
